theory Spec2Isabelle
  imports Main "HOL-Library.Sublist"
begin

section \<open>The submission ledger (src/src/utils.js)\<close>

text \<open>
  A JavaScript call that may throw is a value of \<open>string + 'a\<close>: \<open>Inl msg\<close> is the
  thrown \<open>Error\<close> with its message, \<open>Inr v\<close> the value returned.
\<close>

type_synonym 'a result = "string + 'a"

text \<open>
  One element of the array kept in \<open>data/submissions.json\<close>, as
  \<open>saveSubmissionRecord\<close> pushes it (utils.js, lines 210-215). The \<open>timestamp\<close> is the
  instant that the ISO-8601 string denotes, in milliseconds since the epoch
  (\<open>new Date().toISOString()\<close> when written, \<open>new Date(s.timestamp)\<close> when read);
  \<open>error\<close> is \<open>None\<close> for JavaScript's \<open>null\<close>.
\<close>

record SubmissionRecord =
  site :: string
  success :: bool
  error :: "string option"
  timestamp :: int

text \<open>
  What the two ledger functions can find at \<open>config.paths.submissions\<close>:
  no file (\<open>existsSync\<close> is false), a file that \<open>readFileSync\<close> fails to read, a file
  whose text \<open>JSON.parse\<close> rejects (or that is not an array of records, where the array
  methods raise a TypeError), and a document holding an array of records.
\<close>

datatype submissions_file =
  Absent
  | Unreadable string
  | Unparsable string
  | Document "SubmissionRecord list"

definition existsSync :: "submissions_file \<Rightarrow> bool" where
  "existsSync f = (f \<noteq> Absent)"

text \<open>\<open>JSON.parse(readFileSync(config.paths.submissions, 'utf8'))\<close>\<close>

definition readSubmissions :: "submissions_file \<Rightarrow> SubmissionRecord list result" where
  "readSubmissions f =
     (case f of
        Absent \<Rightarrow> Inl ''ENOENT: no such file or directory''
      | Unreadable msg \<Rightarrow> Inl msg
      | Unparsable msg \<Rightarrow> Inl msg
      | Document submissions \<Rightarrow> Inr submissions)"

text \<open>
  utils.js, lines 162-164:
  \<^verbatim>\<open>submissions.filter(s => s.site === site && s.success)
     .sort((a, b) => new Date(b.timestamp) - new Date(a.timestamp))[0]\<close>
  \<open>Array.prototype.sort\<close> is stable, and so is \<open>sort_key\<close>; the comparator orders by
  descending timestamp. Index 0 of an empty array is \<open>undefined\<close>, here \<open>None\<close>.
\<close>

definition lastSubmission :: "string \<Rightarrow> SubmissionRecord list \<Rightarrow> SubmissionRecord option" where
  "lastSubmission st submissions =
     (case sort_key (\<lambda>s. - timestamp s) (filter (\<lambda>s. site s = st \<and> success s) submissions) of
        [] \<Rightarrow> None
      | s # _ \<Rightarrow> Some s)"

text \<open>
  \<open>checkRateLimit\<close> (utils.js, lines 152-193). The first argument is \<open>getETDate\<close>, the
  runtime's \<open>toLocaleString('en-US', {timeZone: 'America/New_York', year, month, day})\<close>
  on an instant; the second is the instant \<open>new Date()\<close> gives. The \<open>catch\<close> clause
  turns every error of the body into \<open>true\<close>.
\<close>

definition checkRateLimit ::
  "(int \<Rightarrow> string) \<Rightarrow> int \<Rightarrow> submissions_file \<Rightarrow> string \<Rightarrow> bool" where
  "checkRateLimit getETDate now f st =
     (if \<not> existsSync f then True
      else
        (case readSubmissions f of
           Inl err \<Rightarrow> True
         | Inr submissions \<Rightarrow>
             (case lastSubmission st submissions of
                None \<Rightarrow> True
              | Some l \<Rightarrow>
                  (let lastDate = getETDate (timestamp l);
                       todayDate = getETDate now
                   in if lastDate = todayDate then False else True))))"

text \<open>\<open>submissions.slice(-100)\<close>: the last 100 elements, all of them when there are fewer.\<close>

definition slice_last :: "nat \<Rightarrow> 'a list \<Rightarrow> 'a list" where
  "slice_last n xs = drop (length xs - n) xs"

text \<open>
  \<open>saveSubmissionRecord\<close> (utils.js, lines 201-227). \<open>now\<close> is the instant of
  \<open>new Date()\<close>, \<open>wr\<close> what \<open>writeFileSync\<close> does on the submissions file. The body of the
  \<open>try\<close> block comes first: it returns what it raised, if anything, and the file it
  leaves (a write that raises leaves the file as it was).
\<close>

definition saveBody ::
  "int \<Rightarrow> unit result \<Rightarrow> submissions_file \<Rightarrow> string \<Rightarrow> bool \<Rightarrow> string option
     \<Rightarrow> unit result \<times> submissions_file" where
  "saveBody now wr f st succ err =
     (case (if existsSync f then readSubmissions f else Inr []) of
        Inl e \<Rightarrow> (Inl e, f)
      | Inr submissions \<Rightarrow>
          (let pushed = submissions @ [\<lparr>site = st, success = succ, error = err, timestamp = now\<rparr>];
               kept = (if length pushed > 100 then slice_last 100 pushed else pushed)
           in case wr of
                Inl e \<Rightarrow> (Inl e, f)
              | Inr u \<Rightarrow> (Inr (), Document kept)))"

text \<open>The \<open>catch\<close> clause logs the error and falls through: the function returns.\<close>

definition saveSubmissionRecord ::
  "int \<Rightarrow> unit result \<Rightarrow> submissions_file \<Rightarrow> string \<Rightarrow> bool \<Rightarrow> string option
     \<Rightarrow> unit result \<times> submissions_file" where
  "saveSubmissionRecord now wr f st succ err =
     (case saveBody now wr f st succ err of
        (Inl e, f') \<Rightarrow> (Inr (), f')
      | (Inr u, f') \<Rightarrow> (Inr (), f'))"


section \<open>JavaScript string helpers\<close>

text \<open>\<open>s.includes(sub)\<close> and \<open>s.startsWith(p)\<close>.\<close>

definition includesStr :: "string \<Rightarrow> string \<Rightarrow> bool" where
  "includesStr s sub = sublist sub s"

definition startsWith :: "string \<Rightarrow> string \<Rightarrow> bool" where
  "startsWith s p = prefix p s"

text \<open>A JavaScript value that is a string or \<open>null\<close> is truthy when it is a non-empty string.\<close>

definition truthy :: "string option \<Rightarrow> bool" where
  "truthy v = (case v of None \<Rightarrow> False | Some s \<Rightarrow> s \<noteq> [])"

text \<open>
  \<open>html.match(/data-src="(\/\/xd\.wayin\.com\/[^"]+)"/)\<close> (hgtv-entry.js, line 119;
  food-network-entry.js, line 114), giving capture group 1 of the leftmost match.
  At one position the pattern matches when the text goes on with the literal
  \<open>data-src="//xd.wayin.com/\<close>, then at least one character other than the double quote,
  then a double quote; \<open>[^"]+\<close> can only stop at a double quote, so the longest run is the
  only candidate.
\<close>

definition matchHere :: "string \<Rightarrow> string option" where
  "matchHere s =
     (if prefix ''data-src=\"//xd.wayin.com/'' s then
        (let rest = drop (length ''data-src=\"//xd.wayin.com/'') s;
             path = takeWhile (\<lambda>c. c \<noteq> CHR ''\"'') rest;
             after = dropWhile (\<lambda>c. c \<noteq> CHR ''\"'') rest
         in if path \<noteq> [] \<and> after \<noteq> [] then Some (''//xd.wayin.com/'' @ path) else None)
      else None)"

fun matchDataSrc :: "string \<Rightarrow> string option" where
  "matchDataSrc [] = None"
| "matchDataSrc (c # cs) =
     (case matchHere (c # cs) of
        Some u \<Rightarrow> Some u
      | None \<Rightarrow> matchDataSrc cs)"

text \<open>\<open>if (wayinUrl.startsWith('//')) wayinUrl = 'https:' + wayinUrl\<close>\<close>

definition addProtocol :: "string \<Rightarrow> string" where
  "addProtocol wayinUrl = (if startsWith wayinUrl ''//'' then ''https:'' @ wayinUrl else wayinUrl)"


section \<open>The world of one run\<close>

text \<open>
  The form surface that the steps act on (the variable \<open>iframe\<close>): a frame of the page,
  known by its URL, or \<open>page.mainFrame()\<close> after the direct navigation.
\<close>

datatype session = Frame string | MainFrame

text \<open>
  Everything outside the program during one run, one field for each awaited call whose
  outcome the run depends on: Puppeteer's browser and page, the clock, the write of the
  submissions file and \<open>config.captcha.solverApiKey\<close>. A call on the form surface takes
  the session it is issued against, a call on an element also its selector.
  \<open>takeScreenshot\<close> and \<open>fillFormField\<close> catch their own errors and return nothing, so
  they have no field; neither has the logger. The last field is the runtime's
  \<open>String.prototype.toLowerCase\<close>, which follows the Unicode case mapping: like
  \<open>getETDate\<close> it is taken as it is, not written out.
\<close>

record world =
  launch :: "unit result"
  newPage :: "unit result"
  setViewport :: "unit result"
  gotoEntry :: "unit result"
  entryButton :: "bool result"
  iframeElement :: "unit result"
  framePolls :: "string list list"
  dataSrc :: "string option result"
  pageContent :: "string result"
  gotoWayin :: "string \<Rightarrow> unit result"
  dumpContent :: "string result"
  dumpWrite :: "unit result"
  waitForSelector :: "session \<Rightarrow> string \<Rightarrow> unit result"
  click :: "session \<Rightarrow> string \<Rightarrow> unit result"
  evaluateClick :: "session \<Rightarrow> string \<Rightarrow> unit result"
  registration :: "session \<Rightarrow> unit result"
  nextStep :: "session \<Rightarrow> unit result"
  trivia :: "session \<Rightarrow> unit result"
  addressBlock :: "session \<Rightarrow> unit result"
  captchaExists :: "session \<Rightarrow> bool result"
  solverApiKey :: "string option"
  bodyText :: "string result"
  pages :: "nat result"
  close :: "unit result"
  nowCheck :: int
  nowSave :: int
  writeFileSync :: "unit result"
  toLowerCase :: "string \<Rightarrow> string"

text \<open>
  \<open>waitForIframe\<close> (utils.js, lines 11-56). \<open>iframeElement\<close> is
  \<open>page.waitForSelector('iframe[id^="ngxFrame"]')\<close>; \<open>framePolls\<close> lists, for each turn
  of the polling loop that starts before the timeout, the URLs of \<open>page.frames()\<close>. The
  loop stops at the first turn with a frame whose URL includes \<open>wayin.com\<close>.
\<close>

fun pollFrames :: "string list list \<Rightarrow> string option" where
  "pollFrames [] = None"
| "pollFrames (frames # later) =
     (case find (\<lambda>url. includesStr url ''xd.wayin.com'' \<or> includesStr url ''wayin.com'') frames of
        Some url \<Rightarrow> Some url
      | None \<Rightarrow> pollFrames later)"

definition waitForIframe :: "world \<Rightarrow> session result" where
  "waitForIframe w =
     (case iframeElement w of
        Inl e \<Rightarrow> Inl e
      | Inr u \<Rightarrow>
          (case pollFrames (framePolls w) of
             None \<Rightarrow> Inl ''Wayin iframe content did not load''
           | Some url \<Rightarrow> Inr (Frame url)))"

text \<open>
  \<open>clickButton\<close> (utils.js, lines 235-256): an element that never appears and a failing
  programmatic click are rethrown, a failing native click falls back to the programmatic one.
\<close>

definition clickButton :: "world \<Rightarrow> session \<Rightarrow> string \<Rightarrow> unit result" where
  "clickButton w fr selector =
     (case waitForSelector w fr selector of
        Inl e \<Rightarrow> Inl e
      | Inr u \<Rightarrow>
          (case click w fr selector of
             Inr u \<Rightarrow> Inr ()
           | Inl clickError \<Rightarrow>
               (case evaluateClick w fr selector of
                  Inl e \<Rightarrow> Inl e
                | Inr u \<Rightarrow> Inr ())))"

text \<open>\<open>handleCaptcha\<close> (utils.js, lines 93-123).\<close>

definition handleCaptcha :: "world \<Rightarrow> session \<Rightarrow> bool" where
  "handleCaptcha w fr =
     (case captchaExists w fr of
        Inl e \<Rightarrow> False
      | Inr present \<Rightarrow>
          if \<not> present then True
          else if truthy (solverApiKey w) then False
          else True)"


section \<open>The entry pipeline (src/src/hgtv-entry.js, src/src/food-network-entry.js)\<close>

text \<open>
  The two pipelines are the same function up to the site name, the entry URL and three
  calls that only the HGTV file makes (\<open>page.setViewport\<close>, and \<open>page.content\<close> with the
  write of \<open>page_dump.html\<close> before the fallback gives up).
\<close>

datatype pipeline = HGTV | FoodNetwork

definition siteOf :: "pipeline \<Rightarrow> string" where
  "siteOf p = (case p of HGTV \<Rightarrow> ''hgtv'' | FoodNetwork \<Rightarrow> ''foodnetwork'')"

definition entryUrl :: "pipeline \<Rightarrow> string" where
  "entryUrl p =
     (case p of
        HGTV \<Rightarrow> ''https://www.hgtv.com/sweepstakes/hgtv-dream-home/sweepstakes''
      | FoodNetwork \<Rightarrow> ''https://www.foodnetwork.com/sweepstakes'')"

text \<open>How the submit step classifies the page it reads (only the log line differs).\<close>

datatype classification = Success | Ambiguous | Failure string

text \<open>What a run does, in order: each call on the world, as it is made.\<close>

datatype event =
  RateCheck
  | Launch
  | NewPage
  | SetViewport
  | Goto string
  | EntryButton
  | WaitForIframe
  | ReadDataSrc
  | ReadContent
  | DumpPage
  | FillField session string
  | ClickButton session string
  | Registration session
  | NextStep session
  | Trivia session
  | AddressBlock session
  | Captcha session
  | ReadBodyText
  | Classified classification
  | Pages
  | Close
  | SaveRecord string bool "string option"

text \<open>
  A stretch of the \<open>try\<close> block ends in a value, in a thrown error or in
  \<open>return false\<close>; it leaves the events of the calls it made.
\<close>

datatype abort = Thrown string | ReturnFalse

type_synonym 'a stage = "(abort + 'a) \<times> event list"

definition andThen :: "'a stage \<Rightarrow> ('a \<Rightarrow> 'b stage) \<Rightarrow> 'b stage" where
  "andThen m k =
     (case m of
        (Inl a, tr) \<Rightarrow> (Inl a, tr)
      | (Inr x, tr) \<Rightarrow> (case k x of (r, tr') \<Rightarrow> (r, tr @ tr')))"

text \<open>An awaited call outside any inner \<open>try\<close>: its error leaves the block.\<close>

definition call :: "event \<Rightarrow> 'a result \<Rightarrow> 'a stage" where
  "call ev r = (case r of Inl e \<Rightarrow> (Inl (Thrown e), [ev]) | Inr v \<Rightarrow> (Inr v, [ev]))"

text \<open>A step inside its own \<open>try { ... } catch { log }\<close>: whatever it does, the run goes on.\<close>

definition swallowed :: "event \<Rightarrow> 'a result \<Rightarrow> unit stage" where
  "swallowed ev r = (case r of Inl e \<Rightarrow> (Inr (), [ev]) | Inr v \<Rightarrow> (Inr (), [ev]))"

definition skip :: "unit stage" where
  "skip = (Inr (), [])"

text \<open>Lines 31-101 of hgtv-entry.js (31-96 of food-network-entry.js): launch and landing page.\<close>

definition navigate :: "pipeline \<Rightarrow> world \<Rightarrow> unit stage" where
  "navigate p w =
     andThen (call Launch (launch w)) (\<lambda>u.
     andThen (call NewPage (newPage w)) (\<lambda>u.
     andThen (if p = HGTV then call SetViewport (setViewport w) else skip) (\<lambda>u.
     andThen (call (Goto (entryUrl p)) (gotoEntry w)) (\<lambda>u.
     swallowed EntryButton (entryButton w)))))"

text \<open>
  Lines 123-141 of hgtv-entry.js (118-128 of food-network-entry.js): what the fallback
  does with the URL it has, or has not, found.
\<close>

definition directNavigation :: "pipeline \<Rightarrow> world \<Rightarrow> string option \<Rightarrow> session stage" where
  "directNavigation p w wayinUrl =
     (case (if truthy wayinUrl then wayinUrl else None) of
        Some url \<Rightarrow>
          andThen (call (Goto (addProtocol url)) (gotoWayin w (addProtocol url))) (\<lambda>u.
          (Inr MainFrame, []))
      | None \<Rightarrow>
          andThen (if p = HGTV
                   then andThen (call ReadContent (dumpContent w)) (\<lambda>html.
                        call DumpPage (dumpWrite w))
                   else skip) (\<lambda>u.
          (Inl (Thrown ''Could not find Wayin URL (data-src) for direct navigation''), [])))"

text \<open>
  Lines 103-142 of hgtv-entry.js (98-129 of food-network-entry.js): \<open>waitForIframe\<close>, and
  in its \<open>catch\<close> clause the \<open>data-src\<close> attribute of the iframe element, then the scan of
  the markup when the attribute is \<open>null\<close> or empty.
\<close>

definition locateForm :: "pipeline \<Rightarrow> world \<Rightarrow> session stage" where
  "locateForm p w =
     (case waitForIframe w of
        Inr fr \<Rightarrow> (Inr fr, [WaitForIframe])
      | Inl err \<Rightarrow>
          andThen (Inr (), [WaitForIframe]) (\<lambda>u.
          andThen (call ReadDataSrc (dataSrc w)) (\<lambda>attr.
          andThen (if \<not> truthy attr
                   then andThen (call ReadContent (pageContent w)) (\<lambda>html.
                        (Inr (case matchDataSrc html of Some u \<Rightarrow> Some u | None \<Rightarrow> attr), []))
                   else (Inr attr, [])) (\<lambda>wayinUrl.
          directNavigation p w wayinUrl))))"

text \<open>
  Lines 144-227 of hgtv-entry.js (131-216 of food-network-entry.js): the e-mail step,
  whose click is outside any inner \<open>try\<close>, then the four steps that each sit in their own.
\<close>

definition fillSteps :: "world \<Rightarrow> session \<Rightarrow> unit stage" where
  "fillSteps w fr =
     andThen (Inr (), [FillField fr ''xReturningUserEmail'']) (\<lambda>u.
     andThen (call (ClickButton fr ''#xCheckUser'') (clickButton w fr ''#xCheckUser'')) (\<lambda>u.
     andThen (swallowed (Registration fr) (registration w fr)) (\<lambda>u.
     andThen (swallowed (NextStep fr) (nextStep w fr)) (\<lambda>u.
     andThen (swallowed (Trivia fr) (trivia w fr)) (\<lambda>u.
     swallowed (AddressBlock fr) (addressBlock w fr))))))"

text \<open>Lines 229-236 of hgtv-entry.js (218-225 of food-network-entry.js).\<close>

definition challenge :: "bool \<Rightarrow> world \<Rightarrow> session \<Rightarrow> unit stage" where
  "challenge dryRun w fr =
     (let captchaSolved = handleCaptcha w fr
      in if \<not> captchaSolved \<and> \<not> dryRun then (Inl ReturnFalse, [Captcha fr])
         else (Inr (), [Captcha fr]))"

text \<open>
  Lines 256-264 of hgtv-entry.js (245-253 of food-network-entry.js): the test on
  \<open>confirmationText\<close>.
\<close>

definition classify :: "world \<Rightarrow> string \<Rightarrow> classification" where
  "classify w confirmationText =
     (if includesStr (toLowerCase w confirmationText) ''thank'' \<or>
         includesStr (toLowerCase w confirmationText) ''entered'' \<or>
         includesStr (toLowerCase w confirmationText) ''success''
      then Success else Ambiguous)"

text \<open>
  Lines 244-268 of hgtv-entry.js (233-257 of food-network-entry.js): the submit step in
  its own \<open>try\<close>. The value is the variable \<open>success\<close>: both branches of the test set it,
  the \<open>catch\<close> clause leaves it false.
\<close>

definition submitStep :: "world \<Rightarrow> session \<Rightarrow> bool stage" where
  "submitStep w fr =
     (case clickButton w fr ''.xSubmit'' of
        Inl e \<Rightarrow> (Inr False, [ClickButton fr ''.xSubmit'', Classified (Failure e)])
      | Inr u \<Rightarrow>
          (case bodyText w of
             Inl e \<Rightarrow>
               (Inr False, [ClickButton fr ''.xSubmit'', ReadBodyText, Classified (Failure e)])
           | Inr confirmationText \<Rightarrow>
               if classify w confirmationText = Success
               then (Inr True, [ClickButton fr ''.xSubmit'', ReadBodyText, Classified Success])
               else (Inr True, [ClickButton fr ''.xSubmit'', ReadBodyText, Classified Ambiguous])))"

text \<open>
  Lines 31-236 of hgtv-entry.js (31-225 of food-network-entry.js): everything the \<open>try\<close>
  block does before the submit step, giving the form session.
\<close>

definition beforeSubmit :: "pipeline \<Rightarrow> bool \<Rightarrow> world \<Rightarrow> session stage" where
  "beforeSubmit p dryRun w =
     andThen (navigate p w) (\<lambda>u.
     andThen (locateForm p w) (\<lambda>fr.
     andThen (fillSteps w fr) (\<lambda>u.
     andThen (challenge dryRun w fr) (\<lambda>u.
     (Inr fr, [])))))"

text \<open>
  The \<open>try\<close> block, lines 31-270 of hgtv-entry.js (31-259 of food-network-entry.js); lines
  239-243 (228-232) set \<open>success\<close> in a dry run without the submit step.
\<close>

definition tryBlock :: "pipeline \<Rightarrow> bool \<Rightarrow> world \<Rightarrow> bool stage" where
  "tryBlock p dryRun w =
     andThen (beforeSubmit p dryRun w) (\<lambda>fr.
     if dryRun then (Inr True, []) else submitStep w fr)"

text \<open>
  The \<open>catch\<close> clause, lines 271-280 (260-269): it runs on a thrown error only, and
  \<open>browser.pages()\<close> may throw in turn. \<open>browser\<close> tells whether the variable was assigned.
\<close>

definition catchClause :: "bool \<Rightarrow> world \<Rightarrow> abort + bool \<Rightarrow> unit stage" where
  "catchClause browser w body =
     (case body of
        Inl (Thrown e) \<Rightarrow> if browser then andThen (call Pages (pages w)) (\<lambda>n. skip) else skip
      | Inl ReturnFalse \<Rightarrow> (Inl ReturnFalse, [])
      | Inr s \<Rightarrow> skip)"

text \<open>
  The \<open>finally\<close> clause, lines 281-291 (270-280): \<open>browser.close()\<close>, then the record,
  which a dry run does not write.
\<close>

definition finallyClause ::
  "pipeline \<Rightarrow> bool \<Rightarrow> world \<Rightarrow> submissions_file \<Rightarrow> bool \<Rightarrow> bool
     \<Rightarrow> unit result \<times> submissions_file \<times> event list" where
  "finallyClause p dryRun w f browser succ =
     (case (if browser then close w else Inr ()) of
        Inl e \<Rightarrow> (Inl e, f, [Close])
      | Inr u \<Rightarrow>
          (let closed = (if browser then [Close] else [])
           in if \<not> dryRun then
                (let err = (if succ then None else Some ''See logs for details'')
                 in case saveSubmissionRecord (nowSave w) (writeFileSync w) f (siteOf p) succ err of
                      (r, f') \<Rightarrow> (r, f', closed @ [SaveRecord (siteOf p) succ err]))
              else (Inr (), f, closed)))"

text \<open>What the caller of the \<open>async\<close> function gets: a boolean, or a rejected promise.\<close>

datatype outcome = Returned bool | Rejected string

text \<open>
  \<open>submitHGTVEntry\<close> and \<open>submitFoodNetworkEntry\<close>: the rate check, which \<open>!dryRun &&\<close>
  skips in a dry run, then \<open>try\<close>, \<open>catch\<close>, \<open>finally\<close> and \<open>return success\<close>. An error of
  the \<open>finally\<close> clause replaces the completion of the clauses before it.
\<close>

definition submitEntry ::
  "pipeline \<Rightarrow> (int \<Rightarrow> string) \<Rightarrow> bool \<Rightarrow> world \<Rightarrow> submissions_file
     \<Rightarrow> outcome \<times> submissions_file \<times> event list" where
  "submitEntry p getETDate dryRun w f =
     (if \<not> dryRun \<and> \<not> checkRateLimit getETDate (nowCheck w) f (siteOf p)
      then (Returned False, f, [RateCheck])
      else
        (let checked = (if dryRun then [] else [RateCheck]);
             browser = (case launch w of Inl e \<Rightarrow> False | Inr u \<Rightarrow> True);
             (body, tr1) = tryBlock p dryRun w;
             succ = (case body of Inl a \<Rightarrow> False | Inr s \<Rightarrow> s);
             (caught, tr2) = catchClause browser w body;
             (fin, f', tr3) = finallyClause p dryRun w f browser succ
         in ((case fin of
                Inl e \<Rightarrow> Rejected e
              | Inr u \<Rightarrow>
                  (case caught of
                     Inl (Thrown e) \<Rightarrow> Rejected e
                   | Inl ReturnFalse \<Rightarrow> Returned False
                   | Inr u \<Rightarrow> Returned succ)),
             f', checked @ tr1 @ tr2 @ tr3)))"

definition submitHGTVEntry ::
  "(int \<Rightarrow> string) \<Rightarrow> bool \<Rightarrow> world \<Rightarrow> submissions_file
     \<Rightarrow> outcome \<times> submissions_file \<times> event list" where
  "submitHGTVEntry = submitEntry HGTV"

definition submitFoodNetworkEntry ::
  "(int \<Rightarrow> string) \<Rightarrow> bool \<Rightarrow> world \<Rightarrow> submissions_file
     \<Rightarrow> outcome \<times> submissions_file \<times> event list" where
  "submitFoodNetworkEntry = submitEntry FoodNetwork"

text \<open>The three parts of what a run gives.\<close>

abbreviation outcomeOf :: "outcome \<times> submissions_file \<times> event list \<Rightarrow> outcome" where
  "outcomeOf r \<equiv> fst r"

abbreviation fileOf :: "outcome \<times> submissions_file \<times> event list \<Rightarrow> submissions_file" where
  "fileOf r \<equiv> fst (snd r)"

abbreviation eventsOf :: "outcome \<times> submissions_file \<times> event list \<Rightarrow> event list" where
  "eventsOf r \<equiv> snd (snd r)"

section \<open>Sample inputs\<close>

text \<open>
  The New York calendar date of an instant between 2 and 5 November 2026, as
  \<open>toLocaleString\<close> renders it with the options of \<open>getETDate\<close>: Eastern Standard Time
  is five hours behind UTC, so the day starts at 05:00 UTC.
\<close>

definition etDateNov2026 :: "int \<Rightarrow> string" where
  "etDateNov2026 t =
     (if t < 1793682000000 then ''11/2/2026''
      else if t < 1793768400000 then ''11/3/2026''
      else if t < 1793854800000 then ''11/4/2026''
      else ''11/5/2026'')"

text \<open>
  A ledger of three records: HGTV entered on 2 November (14:00 UTC) and failed on
  3 November (14:00 UTC), Food Network entered on 3 November (14:30 UTC).
\<close>

definition sampleLedger :: "SubmissionRecord list" where
  "sampleLedger =
     [\<lparr>site = ''hgtv'', success = True, error = None, timestamp = 1793628000000\<rparr>,
      \<lparr>site = ''hgtv'', success = False, error = Some ''See logs for details'', timestamp = 1793714400000\<rparr>,
      \<lparr>site = ''foodnetwork'', success = True, error = None, timestamp = 1793716200000\<rparr>]"

text \<open>
  What \<open>toLowerCase\<close> does on a text of ASCII characters, as the sample texts are: the
  letters A to Z become a to z, every other character stays.
\<close>

definition lowerChar :: "char \<Rightarrow> char" where
  "lowerChar c =
     (let n = (of_char c :: nat) in if 65 \<le> n \<and> n \<le> 90 then char_of (n + 32) else c)"

definition asciiLowerCase :: "string \<Rightarrow> string" where
  "asciiLowerCase s = map lowerChar s"

text \<open>
  A run in which every call succeeds: the Wayin frame shows at the second poll, there is
  no CAPTCHA, and the page ends on a thank-you text. The rate check reads the clock at
  14:00 UTC on 3 November 2026, the record is stamped a minute later.
\<close>

definition calmWorld :: world where
  "calmWorld =
     \<lparr>launch = Inr (), newPage = Inr (), setViewport = Inr (), gotoEntry = Inr (),
      entryButton = Inr True, iframeElement = Inr (),
      framePolls = [[''about:blank''], [''about:blank'', ''https://xd.wayin.com/display/container/dc/1'']],
      dataSrc = Inr None, pageContent = Inr [],
      gotoWayin = (\<lambda>url. Inr ()), dumpContent = Inr [], dumpWrite = Inr (),
      waitForSelector = (\<lambda>fr sel. Inr ()), click = (\<lambda>fr sel. Inr ()),
      evaluateClick = (\<lambda>fr sel. Inr ()),
      registration = (\<lambda>fr. Inr ()), nextStep = (\<lambda>fr. Inr ()), trivia = (\<lambda>fr. Inr ()),
      addressBlock = (\<lambda>fr. Inl ''Waiting for selector `#address_AddressLine1` failed''),
      captchaExists = (\<lambda>fr. Inr False), solverApiKey = None,
      bodyText = Inr ''Thank you for entering! Come back tomorrow.'',
      pages = Inr 1, close = Inr (),
      nowCheck = 1793714400000, nowSave = 1793714460000,
      writeFileSync = Inr (), toLowerCase = asciiLowerCase\<rparr>"

text \<open>A ledger at its bound: one hundred failure records of a single site.\<close>

definition fullLedger :: "SubmissionRecord list" where
  "fullLedger =
     replicate 100 \<lparr>site = ''foodnetwork'', success = False,
        error = Some ''See logs for details'', timestamp = 1793628000000\<rparr>"

text \<open>The same run, but the submit control never appears: \<open>clickButton\<close> rethrows the timeout.\<close>

definition submitFailsWorld :: world where
  "submitFailsWorld =
     calmWorld\<lparr>waitForSelector :=
        (\<lambda>fr sel. if sel = ''.xSubmit''
                  then Inl ''Waiting for selector `.xSubmit` failed: Waiting failed: 5000ms exceeded''
                  else Inr ())\<rparr>"


text \<open>
  Three runs in which the form never shows in a frame: the iframe element never appears
  but another element carries the \<open>data-src\<close> attribute; the polling times out and the
  markup holds the URL; the polling times out and the markup holds nothing.
\<close>

definition attributeWorld :: world where
  "attributeWorld =
     calmWorld\<lparr>iframeElement := Inl ''Waiting for selector `iframe[id^=ngxFrame]` failed'',
       dataSrc := Inr (Some ''//xd.wayin.com/display/container/dc/1'')\<rparr>"

definition markupWorld :: world where
  "markupWorld =
     calmWorld\<lparr>framePolls := [[''about:blank''], [''about:blank'']],
       pageContent := Inr ''<iframe id=\"ngxFrame12\" data-src=\"//xd.wayin.com/display/container/dc/1\" src=\"about:blank\">''\<rparr>"

definition blankWorld :: world where
  "blankWorld =
     calmWorld\<lparr>framePolls := [[''about:blank''], [''about:blank'']],
       pageContent := Inr ''<html><body></body></html>''\<rparr>"

text \<open>A second run on the same day: the rate check reads the clock at 14:30 UTC.\<close>

definition laterWorld :: world where
  "laterWorld = calmWorld\<lparr>nowCheck := 1793716200000, nowSave := 1793716260000\<rparr>"

text \<open>A ledger whose only record is a success stamped 5 November 2026, 14:00 UTC.\<close>

definition futureLedger :: "SubmissionRecord list" where
  "futureLedger =
     [\<lparr>site = ''hgtv'', success = True, error = None, timestamp = 1793887200000\<rparr>]"


text \<open>The record of the first run when it succeeds: HGTV, stamped 14:01 UTC on 3 November.\<close>

definition firstSuccess :: SubmissionRecord where
  "firstSuccess = \<lparr>site = ''hgtv'', success = True, error = None, timestamp = 1793714460000\<rparr>"

text \<open>
  Runs that fail at the submit control, one every fifteen seconds from 14:02 UTC on, and
  the record that run number \<open>i\<close> of the Food Network pipeline writes.
\<close>

definition failingWorld :: "nat \<Rightarrow> world" where
  "failingWorld i =
     submitFailsWorld\<lparr>nowCheck := 1793714520000 + 15000 * int i,
                      nowSave := 1793714534000 + 15000 * int i\<rparr>"

definition failureRecord :: "nat \<Rightarrow> SubmissionRecord" where
  "failureRecord i =
     \<lparr>site = ''foodnetwork'', success = False, error = Some ''See logs for details'',
      timestamp = 1793714534000 + 15000 * int i\<rparr>"

text \<open>The submissions file after \<open>n\<close> such runs of the Food Network pipeline in a row.\<close>

fun afterOtherRuns :: "nat \<Rightarrow> submissions_file \<Rightarrow> submissions_file" where
  "afterOtherRuns 0 f = f"
| "afterOtherRuns (Suc n) f =
     fileOf (submitFoodNetworkEntry etDateNov2026 False (failingWorld n) (afterOtherRuns n f))"

section \<open>The rate check\<close>

lemma lastSubmission_None:
  "lastSubmission st xs = None \<longleftrightarrow> \<not> (\<exists>s\<in>set xs. site s = st \<and> success s)"
proof -
  let ?ys = "filter (\<lambda>s. site s = st \<and> success s) xs"
  have "lastSubmission st xs = None \<longleftrightarrow> sort_key (\<lambda>s. - timestamp s) ?ys = []"
    by (simp add: lastSubmission_def split: list.splits)
  also have "\<dots> \<longleftrightarrow> set (sort_key (\<lambda>s. - timestamp s) ?ys) = {}"
    by (simp only: set_empty)
  also have "\<dots> \<longleftrightarrow> \<not> (\<exists>s\<in>set xs. site s = st \<and> success s)"
    by (auto simp: filter_empty_conv)
  finally show ?thesis .
qed

lemma lastSubmission_Some:
  assumes "lastSubmission st xs = Some l"
  shows "l \<in> set xs \<and> site l = st \<and> success l \<and>
         (\<forall>s\<in>set xs. site s = st \<and> success s \<longrightarrow> timestamp s \<le> timestamp l)"
proof -
  let ?ys = "filter (\<lambda>s. site s = st \<and> success s) xs"
  let ?zs = "sort_key (\<lambda>s. - timestamp s) ?ys"
  from assms obtain rest where zs: "?zs = l # rest"
    by (auto simp: lastSubmission_def split: list.splits)
  have "set ?zs = set ?ys" by simp
  with zs have mem: "l \<in> set ?ys" and sub: "set ?ys = insert l (set rest)" by auto
  have "sorted (map (\<lambda>s. - timestamp s) ?zs)" by (rule sorted_sort_key)
  with zs have "\<forall>s\<in>set rest. - timestamp l \<le> - timestamp s" by simp
  with sub have "\<forall>s\<in>set ?ys. timestamp s \<le> timestamp l" by auto
  with mem show ?thesis by auto
qed

lemma checkRateLimit_latest:
  assumes r: "r \<in> set xs" "site r = st" "success r"
    and top: "\<forall>s\<in>set xs. site s = st \<and> success s \<longrightarrow> timestamp s \<le> timestamp r"
  shows "checkRateLimit g now (Document xs) st \<longleftrightarrow> g (timestamp r) \<noteq> g now"
proof -
  from r have "lastSubmission st xs \<noteq> None" by (auto simp: lastSubmission_None)
  then obtain l where l: "lastSubmission st xs = Some l" by auto
  from lastSubmission_Some [OF l] r top have "timestamp r \<le> timestamp l" by blast
  moreover from lastSubmission_Some [OF l] top have "timestamp l \<le> timestamp r" by blast
  ultimately have "timestamp l = timestamp r" by simp
  with l show ?thesis
    by (simp add: checkRateLimit_def existsSync_def readSubmissions_def)
qed

text \<open>
  C2. On a ledger that can be read, \<open>checkRateLimit\<close> allows the run when the file is
  missing or holds no successful record of the site. Otherwise take any successful record
  of the site that no other one exceeds in timestamp: the run is denied exactly when the
  New York date string of that record equals the one of the current instant. So a most
  recent success on another calendar day, such as the day before, allows the run.
\<close>

theorem checkRateLimit_most_recent_success:
  "checkRateLimit getETDate now Absent st \<and>
   ((\<forall>s\<in>set xs. \<not> (site s = st \<and> success s)) \<longrightarrow>
      checkRateLimit getETDate now (Document xs) st) \<and>
   (\<forall>r\<in>set xs. site r = st \<and> success r \<and>
        (\<forall>s\<in>set xs. site s = st \<and> success s \<longrightarrow> timestamp s \<le> timestamp r) \<longrightarrow>
      (checkRateLimit getETDate now (Document xs) st
         \<longleftrightarrow> getETDate (timestamp r) \<noteq> getETDate now))"
proof (intro conjI impI ballI)
  show "checkRateLimit getETDate now Absent st"
    by (simp add: checkRateLimit_def existsSync_def)
next
  assume "\<forall>s\<in>set xs. \<not> (site s = st \<and> success s)"
  then have "lastSubmission st xs = None" by (simp add: lastSubmission_None)
  then show "checkRateLimit getETDate now (Document xs) st"
    by (simp add: checkRateLimit_def existsSync_def readSubmissions_def)
next
  fix r
  assume r: "r \<in> set xs"
    and top: "site r = st \<and> success r \<and>
        (\<forall>s\<in>set xs. site s = st \<and> success s \<longrightarrow> timestamp s \<le> timestamp r)"
  then show "checkRateLimit getETDate now (Document xs) st
         \<longleftrightarrow> getETDate (timestamp r) \<noteq> getETDate now"
    using r by (intro checkRateLimit_latest) simp_all
qed

theorem checkRateLimit_most_recent_success_witness:
  "checkRateLimit etDateNov2026 1793714460000 (Document (tl sampleLedger)) ''hgtv'' \<and>
   hd sampleLedger \<in> set sampleLedger \<and> site (hd sampleLedger) = ''hgtv'' \<and> success (hd sampleLedger) \<and>
   etDateNov2026 (timestamp (hd sampleLedger)) \<noteq> etDateNov2026 1793714460000 \<and>
   checkRateLimit etDateNov2026 1793714460000 (Document sampleLedger) ''hgtv'' \<and>
   \<not> checkRateLimit etDateNov2026 1793714460000 (Document sampleLedger) ''foodnetwork''"
  using checkRateLimit_most_recent_success [of etDateNov2026 1793714460000 "''hgtv''" "tl sampleLedger"]
    checkRateLimit_most_recent_success [of etDateNov2026 1793714460000 "''hgtv''" sampleLedger]
    checkRateLimit_most_recent_success [of etDateNov2026 1793714460000 "''foodnetwork''" sampleLedger]
  by (simp add: sampleLedger_def etDateNov2026_def)

text \<open>
  C6. When reading or parsing the submissions file raises an error, whatever its message,
  \<open>checkRateLimit\<close> returns true: the check fails open.
\<close>

theorem checkRateLimit_fails_open:
  "readSubmissions f = Inl e \<Longrightarrow> checkRateLimit getETDate now f st"
  by (simp add: checkRateLimit_def)

theorem checkRateLimit_fails_open_witness:
  "readSubmissions (Unreadable ''EACCES: permission denied'') = Inl ''EACCES: permission denied'' \<and>
   checkRateLimit etDateNov2026 1793714460000 (Unreadable ''EACCES: permission denied'') ''hgtv'' \<and>
   readSubmissions (Unparsable ''Unexpected end of JSON input'') = Inl ''Unexpected end of JSON input'' \<and>
   checkRateLimit etDateNov2026 1793714460000 (Unparsable ''Unexpected end of JSON input'') ''foodnetwork''"
  using checkRateLimit_fails_open [of "Unreadable ''EACCES: permission denied''" "''EACCES: permission denied''" etDateNov2026 1793714460000 "''hgtv''"]
    checkRateLimit_fails_open [of "Unparsable ''Unexpected end of JSON input''" "''Unexpected end of JSON input''" etDateNov2026 1793714460000 "''foodnetwork''"]
  by (simp add: readSubmissions_def)


section \<open>Recording a submission\<close>

lemma slice_last_suffix: "suffix (slice_last n xs) xs"
  by (simp add: slice_last_def suffix_drop)

lemma slice_last_length: "length (slice_last n xs) = min n (length xs)"
  by (simp add: slice_last_def)

lemma slice_last_snoc: "0 < n \<Longrightarrow> last (slice_last n (xs @ [x])) = x"
  by (simp add: slice_last_def)

text \<open>
  C7. When the submissions file is missing (read as the empty sequence) or holds the
  sequence \<open>xs\<close>, and the write succeeds, \<open>saveSubmissionRecord\<close> rewrites the whole
  document with a sequence \<open>kept\<close> that is a suffix of \<open>xs\<close> followed by one new record
  carrying the arguments and the current instant: all of it up to 100 entries, and exactly
  the last 100, in their order, beyond.
\<close>

theorem saveSubmissionRecord_appends_and_truncates:
  assumes "f = Absent \<and> xs = [] \<or> f = Document xs"
  shows "\<exists>kept. saveSubmissionRecord now (Inr ()) f st succ err = (Inr (), Document kept) \<and>
           suffix kept (xs @ [\<lparr>site = st, success = succ, error = err, timestamp = now\<rparr>]) \<and>
           length kept = min 100 (length xs + 1) \<and>
           last kept = \<lparr>site = st, success = succ, error = err, timestamp = now\<rparr>"
proof -
  define r where "r = \<lparr>site = st, success = succ, error = err, timestamp = now\<rparr>"
  define pushed where "pushed = xs @ [r]"
  define kept where "kept = (if length pushed > 100 then slice_last 100 pushed else pushed)"
  from assms have rd: "(if existsSync f then readSubmissions f else Inr []) = Inr xs"
    by (auto simp: existsSync_def readSubmissions_def)
  have saved: "saveSubmissionRecord now (Inr ()) f st succ err = (Inr (), Document kept)"
    by (simp add: saveSubmissionRecord_def saveBody_def rd kept_def pushed_def r_def)
  have suf: "suffix kept pushed"
    by (simp add: kept_def slice_last_suffix)
  have len: "length kept = min 100 (length xs + 1)"
    by (simp add: kept_def pushed_def slice_last_length)
  have lst: "last kept = r"
    by (simp add: kept_def pushed_def slice_last_snoc)
  from saved suf len lst show ?thesis
    unfolding pushed_def r_def by (intro exI [of _ kept] conjI)
qed


theorem saveSubmissionRecord_appends_and_truncates_witness:
  "\<exists>kept. saveSubmissionRecord 1793714460000 (Inr ()) (Document fullLedger) ''hgtv'' True None
            = (Inr (), Document kept) \<and>
      suffix kept (fullLedger @ [\<lparr>site = ''hgtv'', success = True, error = None, timestamp = 1793714460000\<rparr>]) \<and>
      length kept = 100 \<and>
      last kept = \<lparr>site = ''hgtv'', success = True, error = None, timestamp = 1793714460000\<rparr>"
proof -
  have "length fullLedger = 100" by (simp add: fullLedger_def)
  with saveSubmissionRecord_appends_and_truncates [of "Document fullLedger" fullLedger 1793714460000 "''hgtv''" True None]
  show ?thesis by simp
qed

lemma saveSubmissionRecord_returns:
  "fst (saveSubmissionRecord now wr f st succ err) = Inr ()"
  by (simp add: saveSubmissionRecord_def split: prod.splits sum.splits)

section \<open>Stages and their events\<close>

lemma andThen_Inl [simp]: "andThen (Inl a, tr) k = (Inl a, tr)"
  by (simp add: andThen_def)

lemma andThen_Inr [simp]: "andThen (Inr x, tr) k = (fst (k x), tr @ snd (k x))"
  by (simp add: andThen_def split: prod.splits)

lemma fst_andThen:
  "fst (andThen m k) = (case fst m of Inl a \<Rightarrow> Inl a | Inr x \<Rightarrow> fst (k x))"
  by (cases m) (simp split: sum.splits)

lemma snd_andThen:
  "snd (andThen m k) = snd m @ (case fst m of Inl a \<Rightarrow> [] | Inr x \<Rightarrow> snd (k x))"
  by (cases m) (simp split: sum.splits)

lemma navigate_events:
  "e \<in> set (snd (navigate p w)) \<Longrightarrow>
     e \<in> {Launch, NewPage, SetViewport, Goto (entryUrl p), EntryButton}"
  by (auto simp: navigate_def snd_andThen call_def swallowed_def skip_def
      split: sum.splits if_splits)

lemma directNavigation_events:
  "e \<in> set (snd (directNavigation p w v)) \<Longrightarrow> e \<in> {ReadContent, DumpPage} \<union> range Goto"
  by (auto simp: directNavigation_def snd_andThen call_def skip_def
      split: sum.splits if_splits option.splits)

lemma locateForm_events:
  "e \<in> set (snd (locateForm p w)) \<Longrightarrow>
     e \<in> {WaitForIframe, ReadDataSrc, ReadContent, DumpPage} \<union> range Goto"
  by (auto simp: locateForm_def snd_andThen call_def skip_def
      split: sum.splits if_splits option.splits dest!: directNavigation_events)

lemma fillSteps_events:
  "e \<in> set (snd (fillSteps w fr)) \<Longrightarrow>
     e \<in> {FillField fr ''xReturningUserEmail'', ClickButton fr ''#xCheckUser'', Registration fr,
      NextStep fr, Trivia fr, AddressBlock fr}"
  by (auto simp: fillSteps_def snd_andThen call_def swallowed_def
      split: sum.splits if_splits)

lemma challenge_events: "snd (challenge d w fr) = [Captcha fr]"
  by (simp add: challenge_def Let_def)

lemma beforeSubmit_events:
  assumes "e \<in> set (snd (beforeSubmit p d w))"
  shows "e \<in> {Launch, NewPage, SetViewport, EntryButton, WaitForIframe, ReadDataSrc,
               ReadContent, DumpPage} \<union> range Goto \<union>
             (\<Union>fr. {FillField fr ''xReturningUserEmail'', ClickButton fr ''#xCheckUser'',
                Registration fr, NextStep fr, Trivia fr, AddressBlock fr, Captcha fr})"
  using assms
  by (auto simp: beforeSubmit_def snd_andThen challenge_events
      split: sum.splits dest!: navigate_events locateForm_events fillSteps_events)

lemma finallyClause_fst:
  "fst (finallyClause p d w f b s) = (if b then close w else Inr ())"
proof (cases "if b then close w else Inr ()")
  case (Inl e)
  then show ?thesis by (simp add: finallyClause_def)
next
  case (Inr u)
  have "fst (saveSubmissionRecord n x f st s er) = Inr ()" for n x st er
    by (rule saveSubmissionRecord_returns)
  with Inr show ?thesis
    by (simp add: finallyClause_def Let_def case_prod_beta)
qed

lemma finallyClause_dry:
  "fst (snd (finallyClause p True w f b s)) = f"
  by (simp add: finallyClause_def Let_def split: sum.splits)

lemma finallyClause_dry_events:
  "e \<in> set (snd (snd (finallyClause p True w f b s))) \<Longrightarrow> e = Close"
  by (auto simp: finallyClause_def Let_def split: sum.splits if_splits)

lemma catchClause_events:
  "e \<in> set (snd (catchClause b w body)) \<Longrightarrow> e = Pages"
  by (auto simp: catchClause_def snd_andThen call_def skip_def
      split: sum.splits abort.splits if_splits)

lemma tryBlock_dry_events:
  "e \<in> set (snd (tryBlock p True w)) \<Longrightarrow> e \<in> set (snd (beforeSubmit p True w))"
  by (auto simp: tryBlock_def snd_andThen split: sum.splits)

lemma submitEntry_dry_events:
  "e \<in> set (eventsOf (submitEntry p g True w f)) \<Longrightarrow>
     e \<in> set (snd (beforeSubmit p True w)) \<or> e = Pages \<or> e = Close"
  by (auto simp: submitEntry_def Let_def case_prod_beta
      dest: tryBlock_dry_events catchClause_events finallyClause_dry_events)

lemma clickButton_write [simp]:
  "clickButton (w\<lparr>writeFileSync := x\<rparr>) fr sel = clickButton w fr sel"
  by (simp add: clickButton_def split: sum.splits)

lemma classify_write [simp]:
  "classify (w\<lparr>writeFileSync := x\<rparr>) confirmationText = classify w confirmationText"
  by (simp add: classify_def)

lemma submitStep_write [simp]:
  "submitStep (w\<lparr>writeFileSync := x\<rparr>) fr = submitStep w fr"
  by (simp add: submitStep_def cong: sum.case_cong if_cong)

lemma tryBlock_write [simp]:
  "tryBlock p d (w\<lparr>writeFileSync := x\<rparr>) = tryBlock p d w"
  by (simp add: tryBlock_def beforeSubmit_def navigate_def locateForm_def directNavigation_def
      fillSteps_def challenge_def waitForIframe_def handleCaptcha_def
      cong: sum.case_cong option.case_cong if_cong)

lemma catchClause_write [simp]:
  "catchClause b (w\<lparr>writeFileSync := x\<rparr>) body = catchClause b w body"
  by (simp add: catchClause_def cong: sum.case_cong abort.case_cong)

lemma outcome_allowed:
  assumes "d \<or> checkRateLimit g (nowCheck w) f (siteOf p)"
  shows "outcomeOf (submitEntry p g d w f) =
     (let browser = (case launch w of Inl e \<Rightarrow> False | Inr u \<Rightarrow> True);
          body = fst (tryBlock p d w)
      in case (if browser then close w else Inr ()) of
           Inl e \<Rightarrow> Rejected e
         | Inr u \<Rightarrow>
             (case fst (catchClause browser w body) of
                Inl (Thrown e) \<Rightarrow> Rejected e
              | Inl ReturnFalse \<Rightarrow> Returned False
              | Inr u \<Rightarrow> Returned (case body of Inl a \<Rightarrow> False | Inr s \<Rightarrow> s)))"
  using assms
  by (cases "launch w") (auto simp: submitEntry_def Let_def case_prod_beta finallyClause_fst)

lemma navigate_ok_launch:
  "fst (navigate p w) = Inr () \<Longrightarrow> launch w = Inr ()"
  by (cases "launch w") (simp_all add: navigate_def call_def)

lemma fillSteps_ok:
  "clickButton w fr ''#xCheckUser'' = Inr () \<Longrightarrow>
   fillSteps w fr =
     (Inr (), [FillField fr ''xReturningUserEmail'', ClickButton fr ''#xCheckUser'',
               Registration fr, NextStep fr, Trivia fr, AddressBlock fr])"
  by (simp add: fillSteps_def call_def swallowed_def split: sum.splits)

lemma beforeSubmit_reached:
  assumes "fst (navigate p w) = Inr ()"
    and "locateForm p w = (Inr fr, trL)"
    and "clickButton w fr ''#xCheckUser'' = Inr ()"
    and "d \<or> handleCaptcha w fr"
  shows "beforeSubmit p d w =
     (Inr fr, snd (navigate p w) @ trL @
        [FillField fr ''xReturningUserEmail'', ClickButton fr ''#xCheckUser'',
         Registration fr, NextStep fr, Trivia fr, AddressBlock fr, Captcha fr])"
proof -
  from assms(1) have nav: "navigate p w = (Inr (), snd (navigate p w))"
    by (cases "navigate p w") simp
  from assms(4) have ch: "challenge d w fr = (Inr (), [Captcha fr])"
    by (auto simp: challenge_def Let_def)
  show ?thesis
    unfolding beforeSubmit_def
    by (subst nav) (simp add: assms(2) fillSteps_ok [OF assms(3)] ch)
qed

section \<open>Dry runs\<close>

text \<open>
  C5. A dry run of either pipeline leaves the submissions file as it found it and never
  calls \<open>saveSubmissionRecord\<close>, whatever the world does: whether the run ends in the
  synthesized success, in a thrown error or with an unresolved challenge.
\<close>

theorem dry_run_never_records:
  "fileOf (submitEntry p getETDate True w f) = f \<and>
   SaveRecord st s er \<notin> set (eventsOf (submitEntry p getETDate True w f))"
proof
  show "fileOf (submitEntry p getETDate True w f) = f"
    by (simp add: submitEntry_def Let_def case_prod_beta finallyClause_dry)
  show "SaveRecord st s er \<notin> set (eventsOf (submitEntry p getETDate True w f))"
    by (auto dest!: submitEntry_dry_events beforeSubmit_events)
qed

text \<open>
  C3, as the code has it. A dry run never makes the rate check (\<open>!dryRun &&\<close> skips it)
  and never clicks the submit control. When the navigation, the location of the form and
  the click of the e-mail step do not throw and the browser closes, the run goes through
  the navigation, the location of the form, the fill steps and the challenge, whose answer
  it ignores, and returns true with the submissions file untouched.
\<close>

theorem dry_run_stages:
  "RateCheck \<notin> set (eventsOf (submitEntry p getETDate True w f)) \<and>
   ClickButton fr' ''.xSubmit'' \<notin> set (eventsOf (submitEntry p getETDate True w f)) \<and>
   (fst (navigate p w) = Inr () \<and> locateForm p w = (Inr fr, trL) \<and>
    clickButton w fr ''#xCheckUser'' = Inr () \<and> close w = Inr () \<longrightarrow>
    submitEntry p getETDate True w f =
      (Returned True, f,
       snd (navigate p w) @ trL @
         [FillField fr ''xReturningUserEmail'', ClickButton fr ''#xCheckUser'',
          Registration fr, NextStep fr, Trivia fr, AddressBlock fr, Captcha fr, Close]))"
proof (intro conjI impI)
  show "RateCheck \<notin> set (eventsOf (submitEntry p getETDate True w f))"
    by (auto dest!: submitEntry_dry_events beforeSubmit_events)
  show "ClickButton fr' ''.xSubmit'' \<notin> set (eventsOf (submitEntry p getETDate True w f))"
    by (auto dest!: submitEntry_dry_events beforeSubmit_events)
next
  assume a: "fst (navigate p w) = Inr () \<and> locateForm p w = (Inr fr, trL) \<and>
    clickButton w fr ''#xCheckUser'' = Inr () \<and> close w = Inr ()"
  then have pre: "beforeSubmit p True w =
     (Inr fr, snd (navigate p w) @ trL @
        [FillField fr ''xReturningUserEmail'', ClickButton fr ''#xCheckUser'',
         Registration fr, NextStep fr, Trivia fr, AddressBlock fr, Captcha fr])"
    by (simp add: beforeSubmit_reached)
  from a have "launch w = Inr ()" by (auto dest: navigate_ok_launch)
  with a show "submitEntry p getETDate True w f =
      (Returned True, f,
       snd (navigate p w) @ trL @
         [FillField fr ''xReturningUserEmail'', ClickButton fr ''#xCheckUser'',
          Registration fr, NextStep fr, Trivia fr, AddressBlock fr, Captcha fr, Close])"
    by (simp add: submitEntry_def tryBlock_def pre catchClause_def skip_def finallyClause_def)
qed

theorem dry_run_stages_witness:
  "fst (navigate HGTV calmWorld) = Inr () \<and>
   locateForm HGTV calmWorld = (Inr (Frame ''https://xd.wayin.com/display/container/dc/1''), [WaitForIframe]) \<and>
   clickButton calmWorld (Frame ''https://xd.wayin.com/display/container/dc/1'') ''#xCheckUser'' = Inr () \<and>
   close calmWorld = Inr () \<and>
   submitEntry HGTV etDateNov2026 True calmWorld (Document sampleLedger) =
      (Returned True, Document sampleLedger,
       [Launch, NewPage, SetViewport, Goto (entryUrl HGTV), EntryButton, WaitForIframe,
        FillField (Frame ''https://xd.wayin.com/display/container/dc/1'') ''xReturningUserEmail'',
        ClickButton (Frame ''https://xd.wayin.com/display/container/dc/1'') ''#xCheckUser'',
        Registration (Frame ''https://xd.wayin.com/display/container/dc/1''),
        NextStep (Frame ''https://xd.wayin.com/display/container/dc/1''),
        Trivia (Frame ''https://xd.wayin.com/display/container/dc/1''),
        AddressBlock (Frame ''https://xd.wayin.com/display/container/dc/1''),
        Captcha (Frame ''https://xd.wayin.com/display/container/dc/1''), Close])"
proof -
  have n: "navigate HGTV calmWorld =
      (Inr (), [Launch, NewPage, SetViewport, Goto (entryUrl HGTV), EntryButton])"
    by code_simp
  have l: "locateForm HGTV calmWorld =
      (Inr (Frame ''https://xd.wayin.com/display/container/dc/1''), [WaitForIframe])"
    by code_simp
  have c: "clickButton calmWorld (Frame ''https://xd.wayin.com/display/container/dc/1'') ''#xCheckUser'' = Inr ()"
    by code_simp
  have k: "close calmWorld = Inr ()"
    by code_simp
  from dry_run_stages [where p = HGTV and w = calmWorld and trL = "[WaitForIframe]"
      and fr = "Frame ''https://xd.wayin.com/display/container/dc/1''"
      and getETDate = etDateNov2026 and f = "Document sampleLedger"] n l c k
  show ?thesis by simp
qed

text \<open>
  C3 as stated fails twice: a dry run in which every call succeeds makes no rate check, and
  a dry run whose browser does not start returns false.
\<close>

theorem dry_run_rate_check_counterexample:
  "RateCheck \<notin> set (eventsOf (submitHGTVEntry etDateNov2026 True calmWorld Absent)) \<and>
   outcomeOf (submitHGTVEntry etDateNov2026 True
      (calmWorld\<lparr>launch := Inl ''Failed to launch the browser process''\<rparr>) Absent) = Returned False"
  by code_simp

section \<open>Failures of the record step\<close>

text \<open>
  C10. \<open>saveSubmissionRecord\<close> returns whatever reading, parsing or writing the file
  does. So among the runs that the rate check lets through (and all dry runs), what the
  pipeline gives its caller does not depend on the submissions file nor on what the write
  does: a run whose record cannot be persisted ends as the same run whose record can.
\<close>

theorem saveSubmissionRecord_never_throws:
  "fst (saveSubmissionRecord now wr f st succ err) = Inr () \<and>
   (dryRun \<or> checkRateLimit getETDate (nowCheck w) f (siteOf p) \<and>
             checkRateLimit getETDate (nowCheck w) f' (siteOf p) \<longrightarrow>
    outcomeOf (submitEntry p getETDate dryRun (w\<lparr>writeFileSync := wr\<rparr>) f) =
    outcomeOf (submitEntry p getETDate dryRun (w\<lparr>writeFileSync := wr'\<rparr>) f'))"
proof (intro conjI impI)
  show "fst (saveSubmissionRecord now wr f st succ err) = Inr ()"
    by (simp add: saveSubmissionRecord_def split: prod.splits sum.splits)
next
  assume a: "dryRun \<or> checkRateLimit getETDate (nowCheck w) f (siteOf p) \<and>
             checkRateLimit getETDate (nowCheck w) f' (siteOf p)"
  then have "dryRun \<or> checkRateLimit getETDate (nowCheck (w\<lparr>writeFileSync := wr\<rparr>)) f (siteOf p)"
    and "dryRun \<or> checkRateLimit getETDate (nowCheck (w\<lparr>writeFileSync := wr'\<rparr>)) f' (siteOf p)"
    by auto
  then show "outcomeOf (submitEntry p getETDate dryRun (w\<lparr>writeFileSync := wr\<rparr>) f) =
    outcomeOf (submitEntry p getETDate dryRun (w\<lparr>writeFileSync := wr'\<rparr>) f')"
    by (simp add: outcome_allowed Let_def cong: sum.case_cong if_cong)
qed

theorem saveSubmissionRecord_never_throws_witness:
  "checkRateLimit etDateNov2026 (nowCheck calmWorld) (Unparsable ''Unexpected end of JSON input'') (siteOf HGTV) \<and>
   checkRateLimit etDateNov2026 (nowCheck calmWorld) Absent (siteOf HGTV) \<and>
   outcomeOf (submitEntry HGTV etDateNov2026 False
      (calmWorld\<lparr>writeFileSync := Inl ''ENOSPC: no space left on device''\<rparr>)
      (Unparsable ''Unexpected end of JSON input'')) =
   outcomeOf (submitEntry HGTV etDateNov2026 False (calmWorld\<lparr>writeFileSync := Inr ()\<rparr>) Absent)"
  using saveSubmissionRecord_never_throws [where dryRun = False and getETDate = etDateNov2026 and w = calmWorld and p = HGTV
      and f = "Unparsable ''Unexpected end of JSON input''" and f' = Absent
      and wr = "Inl ''ENOSPC: no space left on device''" and wr' = "Inr ()"]
  by (simp add: checkRateLimit_def existsSync_def readSubmissions_def)

section \<open>The record of a failed run\<close>

lemma submitStep_events:
  "e \<in> set (snd (submitStep w fr)) \<Longrightarrow>
     e \<in> {ClickButton fr ''.xSubmit'', ReadBodyText} \<union> range Classified"
  by (auto simp: submitStep_def split: sum.splits if_splits)






section \<open>The submit step\<close>


lemma asciiLowerCase_phrase:
  assumes "includesStr confirmationText ''Thank you for entering''"
  shows "includesStr (asciiLowerCase confirmationText) ''thank you for entering''"
proof -
  from assms have "sublist (map lowerChar ''Thank you for entering'') (map lowerChar confirmationText)"
    unfolding includesStr_def by (rule map_mono_sublist)
  moreover have "map lowerChar ''Thank you for entering'' = ''thank you for entering''"
    by code_simp
  ultimately show ?thesis
    by (simp only: asciiLowerCase_def includesStr_def)
qed






section \<open>The scan of the page markup\<close>

lemma matchHere_Some:
  assumes "matchHere s = Some u"
  shows "\<exists>path post. s = ''data-src=\"'' @ u @ ''\"'' @ post \<and>
           u = ''//xd.wayin.com/'' @ path \<and> path \<noteq> [] \<and> CHR ''\"'' \<notin> set path"
proof -
  let ?lit = "''data-src=\"//xd.wayin.com/''"
  let ?q = "\<lambda>c. c \<noteq> CHR ''\"''"
  from assms have pre: "prefix ?lit s"
    by (simp add: matchHere_def split: if_splits)
  then obtain rest where s: "s = ?lit @ rest" by (auto simp: prefix_def)
  then have rest: "drop (length ?lit) s = rest" by simp
  from assms pre rest have u: "u = ''//xd.wayin.com/'' @ takeWhile ?q rest"
    and ne: "takeWhile ?q rest \<noteq> []" and after: "dropWhile ?q rest \<noteq> []"
    by (simp_all add: matchHere_def Let_def split: if_splits)
  from after have "hd (dropWhile ?q rest) = CHR ''\"''"
    using hd_dropWhile [of ?q rest] by simp
  with after have "dropWhile ?q rest = CHR ''\"'' # tl (dropWhile ?q rest)"
    by (cases "dropWhile ?q rest") simp_all
  then have "rest = takeWhile ?q rest @ CHR ''\"'' # tl (dropWhile ?q rest)"
    by (metis takeWhile_dropWhile_id)
  with s have "s = ''data-src=\"'' @ u @ ''\"'' @ tl (dropWhile ?q rest)"
    by (simp add: u)
  moreover have "CHR ''\"'' \<notin> set (takeWhile ?q rest)"
    by (auto dest: set_takeWhileD)
  ultimately show ?thesis using u ne by blast
qed

lemma matchDataSrc_Some:
  "matchDataSrc html = Some u \<Longrightarrow>
     \<exists>pre path post. html = pre @ ''data-src=\"'' @ u @ ''\"'' @ post \<and>
        u = ''//xd.wayin.com/'' @ path \<and> path \<noteq> [] \<and> CHR ''\"'' \<notin> set path"
proof (induction html)
  case Nil
  then show ?case by simp
next
  case (Cons c cs)
  show ?case
  proof (cases "matchHere (c # cs)")
    case None
    with Cons.prems have "matchDataSrc cs = Some u" by simp
    from Cons.IH [OF this] obtain pre path post where
      "cs = pre @ ''data-src=\"'' @ u @ ''\"'' @ post"
      "u = ''//xd.wayin.com/'' @ path" "path \<noteq> []" "CHR ''\"'' \<notin> set path"
      by blast
    then have "c # cs = (c # pre) @ ''data-src=\"'' @ u @ ''\"'' @ post \<and>
        u = ''//xd.wayin.com/'' @ path \<and> path \<noteq> [] \<and> CHR ''\"'' \<notin> set path"
      by simp
    then show ?thesis by blast
  next
    case (Some v)
    with Cons.prems have "v = u" by simp
    with Some matchHere_Some [of "c # cs" u] obtain path post where
      "c # cs = [] @ ''data-src=\"'' @ u @ ''\"'' @ post \<and>
        u = ''//xd.wayin.com/'' @ path \<and> path \<noteq> [] \<and> CHR ''\"'' \<notin> set path"
      by auto
    then show ?thesis by blast
  qed
qed

lemma matchHere_complete:
  assumes "path \<noteq> []" and "CHR ''\"'' \<notin> set path"
  shows "matchHere (''data-src=\"//xd.wayin.com/'' @ path @ ''\"'' @ post)
           = Some (''//xd.wayin.com/'' @ path)"
proof -
  let ?q = "\<lambda>c. c \<noteq> CHR ''\"''"
  from assms(2) have t: "takeWhile ?q (path @ CHR ''\"'' # post) = path"
    by (subst takeWhile_append2) auto
  from assms(2) have d: "dropWhile ?q (path @ CHR ''\"'' # post) = CHR ''\"'' # post"
    by (subst dropWhile_append2) auto
  show ?thesis
    using assms(1) by (simp add: matchHere_def t d)
qed

lemma matchDataSrc_complete:
  assumes "path \<noteq> []" and "CHR ''\"'' \<notin> set path"
  shows "matchDataSrc (pre @ ''data-src=\"//xd.wayin.com/'' @ path @ ''\"'' @ post) \<noteq> None"
proof (induction pre)
  case Nil
  have "matchDataSrc (''data-src=\"//xd.wayin.com/'' @ path @ ''\"'' @ post)
      = Some (''//xd.wayin.com/'' @ path)"
    using matchHere_complete [OF assms, of post] by simp
  then show ?case by simp
next
  case (Cons c pre)
  then show ?case by (simp split: option.splits)
qed

section \<open>The fallback of the form locator\<close>

lemma directNavigation_found:
  "u \<noteq> [] \<Longrightarrow>
   directNavigation p w (Some u) =
     ((case gotoWayin w (addProtocol u) of Inl e \<Rightarrow> Inl (Thrown e) | Inr x \<Rightarrow> Inr MainFrame),
      [Goto (addProtocol u)])"
  by (simp add: directNavigation_def truthy_def call_def split: sum.splits)

lemma directNavigation_not_found:
  assumes "\<not> truthy a"
  shows "(\<exists>msg. fst (directNavigation p w a) = Inl (Thrown msg)) \<and>
         (\<forall>e\<in>set (snd (directNavigation p w a)). e = ReadContent \<or> e = DumpPage)"
  using assms
  by (auto simp: directNavigation_def call_def skip_def fst_andThen snd_andThen
      split: sum.splits)

lemma locateForm_fallback:
  assumes "waitForIframe w = Inl err"
  shows "locateForm p w =
     andThen (Inr (), [WaitForIframe]) (\<lambda>u.
     andThen (call ReadDataSrc (dataSrc w)) (\<lambda>attr.
     andThen (if \<not> truthy attr
              then andThen (call ReadContent (pageContent w)) (\<lambda>html.
                   (Inr (case matchDataSrc html of Some u \<Rightarrow> Some u | None \<Rightarrow> attr), []))
              else (Inr attr, [])) (\<lambda>wayinUrl.
     directNavigation p w wayinUrl)))"
  by (simp add: locateForm_def assms)

lemma locateForm_count:
  "count_list (snd (locateForm p w)) WaitForIframe = 1"
proof -
  have d: "count_list (snd (directNavigation p w a)) WaitForIframe = 0" for a
    by (auto simp: count_list_0_iff dest: directNavigation_events)
  show ?thesis
    by (simp add: locateForm_def snd_andThen call_def d split: sum.splits)
qed

lemma beforeSubmit_count:
  "count_list (snd (beforeSubmit p d w)) WaitForIframe \<le> 1"
proof -
  have n: "count_list (snd (navigate p w)) WaitForIframe = 0"
    by (auto simp: count_list_0_iff dest: navigate_events)
  have f: "count_list (snd (fillSteps w fr)) WaitForIframe = 0" for fr
    by (auto simp: count_list_0_iff dest: fillSteps_events)
  show ?thesis
    by (simp add: beforeSubmit_def snd_andThen n f locateForm_count challenge_events
        split: sum.splits)
qed

lemma submitEntry_count:
  "count_list (eventsOf (submitEntry p g d w f)) WaitForIframe \<le> 1"
proof -
  have s: "count_list (snd (submitStep w fr)) WaitForIframe = 0" for fr
    by (auto simp: count_list_0_iff dest: submitStep_events)
  have t: "count_list (snd (tryBlock p d w)) WaitForIframe \<le> 1"
    using beforeSubmit_count [of p d w]
    by (cases d) (auto simp: tryBlock_def snd_andThen s split: sum.splits)
  have c: "count_list (snd (catchClause b w body)) WaitForIframe = 0" for b body
    by (auto simp: count_list_0_iff dest: catchClause_events)
  have k: "count_list (snd (snd (finallyClause p d w f b su))) WaitForIframe = 0" for b su
    by (auto simp: count_list_0_iff finallyClause_def Let_def case_prod_beta
        split: sum.splits if_splits)
  show ?thesis
    using t by (simp add: submitEntry_def Let_def case_prod_beta c k)
qed

lemma tryBlock_fails:
  assumes "fst (tryBlock p d w) = Inl a"
  shows "outcomeOf (submitEntry p g d w f) \<noteq> Returned True"
proof (cases "d \<or> checkRateLimit g (nowCheck w) f (siteOf p)")
  case False
  then show ?thesis by (simp add: submitEntry_def)
next
  case True
  show ?thesis
    using assms
    by (auto simp: outcome_allowed [OF True] Let_def catchClause_def skip_def call_def
        fst_andThen split: sum.splits abort.splits)
qed

lemma locateForm_fails:
  assumes "fst (locateForm p w) = Inl a"
  shows "\<exists>a'. fst (tryBlock p d w) = Inl a'"
  using assms
  by (auto simp: tryBlock_def beforeSubmit_def fst_andThen split: sum.splits)

lemma directNavigation_session:
  "fst (directNavigation p w a) = Inr fr \<Longrightarrow> fr = MainFrame"
  by (auto simp: directNavigation_def call_def skip_def fst_andThen
      split: sum.splits if_splits option.splits)

lemma locateForm_fallback_session:
  assumes "waitForIframe w = Inl err" and "fst (locateForm p w) = Inr fr"
  shows "fr = MainFrame"
  using assms(2) unfolding locateForm_fallback [OF assms(1)]
  by (auto simp: fst_andThen call_def split: sum.splits if_splits
      dest: directNavigation_session)

lemma fillSteps_first:
  "FillField fr ''xReturningUserEmail'' \<in> set (snd (fillSteps w fr))"
  by (simp add: fillSteps_def snd_andThen)

text \<open>
  C8. Let \<open>waitForIframe\<close> throw: the iframe element did not appear, or no frame with a
  Wayin URL showed before the timeout. Then the run reads the \<open>data-src\<close> attribute of the
  iframe element. A non-empty attribute is the URL; otherwise the run scans the markup of
  the page, and a match is a URL that stands in the markup as \<open>data-src="//xd.wayin.com/..."\<close>.
  A URL that starts with \<open>//\<close> gets \<open>https:\<close> in front (a scanned one always does), the page
  navigates to it, and when that succeeds the main frame is the form session, on which the
  steps that follow are issued. With no URL from either source the location of the form
  throws, no navigation is made, the run does not return true, and in no run is
  \<open>waitForIframe\<close> called twice.
\<close>

theorem fallback_direct_navigation:
  assumes "waitForIframe w = Inl err"
  shows
   "(dataSrc w = Inr (Some u) \<and> u \<noteq> [] \<longrightarrow>
       locateForm p w =
         ((case gotoWayin w (addProtocol u) of Inl e \<Rightarrow> Inl (Thrown e) | Inr x \<Rightarrow> Inr MainFrame),
          [WaitForIframe, ReadDataSrc, Goto (addProtocol u)])) \<and>
    (dataSrc w = Inr a \<and> \<not> truthy a \<and> pageContent w = Inr html \<and> matchDataSrc html = Some u \<longrightarrow>
       locateForm p w =
         ((case gotoWayin w (''https:'' @ u) of Inl e \<Rightarrow> Inl (Thrown e) | Inr x \<Rightarrow> Inr MainFrame),
          [WaitForIframe, ReadDataSrc, ReadContent, Goto (''https:'' @ u)]) \<and>
       (\<exists>pre path post. html = pre @ ''data-src=\"'' @ u @ ''\"'' @ post \<and>
           u = ''//xd.wayin.com/'' @ path \<and> path \<noteq> [])) \<and>
    (dataSrc w = Inr a \<and> \<not> truthy a \<and> pageContent w = Inr html \<and> matchDataSrc html = None \<longrightarrow>
       (\<exists>msg. fst (locateForm p w) = Inl (Thrown msg)) \<and>
       (\<forall>url. Goto url \<notin> set (snd (locateForm p w))) \<and>
       count_list (eventsOf (submitEntry p getETDate dryRun w f)) WaitForIframe \<le> 1 \<and>
       outcomeOf (submitEntry p getETDate dryRun w f) \<noteq> Returned True) \<and>
    (startsWith u ''//'' \<longrightarrow> addProtocol u = ''https:'' @ u) \<and>
    (fst (navigate p w) = Inr () \<and> locateForm p w = (Inr fr, trL) \<longrightarrow>
       fr = MainFrame \<and>
       FillField MainFrame ''xReturningUserEmail'' \<in> set (snd (beforeSubmit p dryRun w)))"
proof (intro conjI impI)
  assume "dataSrc w = Inr (Some u) \<and> u \<noteq> []"
  then show "locateForm p w =
         ((case gotoWayin w (addProtocol u) of Inl e \<Rightarrow> Inl (Thrown e) | Inr x \<Rightarrow> Inr MainFrame),
          [WaitForIframe, ReadDataSrc, Goto (addProtocol u)])"
    by (simp add: locateForm_fallback [OF assms] call_def truthy_def directNavigation_found)
next
  assume a: "dataSrc w = Inr a \<and> \<not> truthy a \<and> pageContent w = Inr html \<and>
    matchDataSrc html = Some u"
  from matchDataSrc_Some [of html u] a obtain pre path post where
    m: "html = pre @ ''data-src=\"'' @ u @ ''\"'' @ post" "u = ''//xd.wayin.com/'' @ path"
       "path \<noteq> []"
    by blast
  from m(2) have u: "u \<noteq> []" and add: "addProtocol u = ''https:'' @ u"
    by (simp_all add: addProtocol_def startsWith_def)
  from a u show "locateForm p w =
         ((case gotoWayin w (''https:'' @ u) of Inl e \<Rightarrow> Inl (Thrown e) | Inr x \<Rightarrow> Inr MainFrame),
          [WaitForIframe, ReadDataSrc, ReadContent, Goto (''https:'' @ u)])"
    by (simp add: locateForm_fallback [OF assms] call_def directNavigation_found add)
  from m show "\<exists>pre path post. html = pre @ ''data-src=\"'' @ u @ ''\"'' @ post \<and>
           u = ''//xd.wayin.com/'' @ path \<and> path \<noteq> []"
    by blast
next
  assume a: "dataSrc w = Inr a \<and> \<not> truthy a \<and> pageContent w = Inr html \<and>
    matchDataSrc html = None"
  then have l: "locateForm p w =
      (fst (directNavigation p w a),
       [WaitForIframe, ReadDataSrc, ReadContent] @ snd (directNavigation p w a))"
    by (simp add: locateForm_fallback [OF assms] call_def)
  from a directNavigation_not_found [of a p w]
  obtain msg where msg: "fst (directNavigation p w a) = Inl (Thrown msg)"
    and ev: "\<forall>e\<in>set (snd (directNavigation p w a)). e = ReadContent \<or> e = DumpPage"
    by blast
  from msg show "\<exists>msg. fst (locateForm p w) = Inl (Thrown msg)"
    by (simp add: l)
  from ev show "\<forall>url. Goto url \<notin> set (snd (locateForm p w))"
    by (auto simp: l)
  show "count_list (eventsOf (submitEntry p getETDate dryRun w f)) WaitForIframe \<le> 1"
    by (rule submitEntry_count)
  from msg have "fst (locateForm p w) = Inl (Thrown msg)" by (simp add: l)
  from locateForm_fails [OF this] obtain a' where "fst (tryBlock p dryRun w) = Inl a'"
    by blast
  then show "outcomeOf (submitEntry p getETDate dryRun w f) \<noteq> Returned True"
    by (rule tryBlock_fails)
next
  assume "startsWith u ''//''"
  then show "addProtocol u = ''https:'' @ u" by (simp add: addProtocol_def)
next
  assume a: "fst (navigate p w) = Inr () \<and> locateForm p w = (Inr fr, trL)"
  then have "fst (locateForm p w) = Inr fr" by simp
  with assms show fr: "fr = MainFrame" by (rule locateForm_fallback_session)
  from a have nav: "navigate p w = (Inr (), snd (navigate p w))"
    by (cases "navigate p w") simp
  have "FillField MainFrame ''xReturningUserEmail'' \<in> set (snd (fillSteps w MainFrame))"
    by (rule fillSteps_first)
  then show "FillField MainFrame ''xReturningUserEmail'' \<in> set (snd (beforeSubmit p dryRun w))"
    using a fr unfolding beforeSubmit_def
    by (subst nav) (simp add: snd_andThen)
qed

theorem fallback_direct_navigation_witness:
  "locateForm HGTV attributeWorld =
     (Inr MainFrame, [WaitForIframe, ReadDataSrc, Goto ''https://xd.wayin.com/display/container/dc/1'']) \<and>
   locateForm FoodNetwork markupWorld =
     (Inr MainFrame, [WaitForIframe, ReadDataSrc, ReadContent,
                      Goto ''https://xd.wayin.com/display/container/dc/1'']) \<and>
   FillField MainFrame ''xReturningUserEmail'' \<in> set (snd (beforeSubmit FoodNetwork False markupWorld)) \<and>
   (\<exists>msg. fst (locateForm HGTV blankWorld) = Inl (Thrown msg)) \<and>
   outcomeOf (submitEntry HGTV etDateNov2026 False blankWorld Absent) \<noteq> Returned True"
proof -
  let ?u = "''//xd.wayin.com/display/container/dc/1''"
  let ?html = "''<iframe id=\"ngxFrame12\" data-src=\"//xd.wayin.com/display/container/dc/1\" src=\"about:blank\">''"
  have w1: "waitForIframe attributeWorld = Inl ''Waiting for selector `iframe[id^=ngxFrame]` failed''"
    by code_simp
  have w2: "waitForIframe markupWorld = Inl ''Wayin iframe content did not load''"
    by code_simp
  have w3: "waitForIframe blankWorld = Inl ''Wayin iframe content did not load''"
    by code_simp
  have h1: "dataSrc attributeWorld = Inr (Some ?u) \<and> ?u \<noteq> [] \<and>
      gotoWayin attributeWorld ''https://xd.wayin.com/display/container/dc/1'' = Inr () \<and>
      addProtocol ?u = ''https://xd.wayin.com/display/container/dc/1''"
    by code_simp
  have h2: "dataSrc markupWorld = Inr None \<and> \<not> truthy None \<and> pageContent markupWorld = Inr ?html \<and>
      matchDataSrc ?html = Some ?u \<and> gotoWayin markupWorld (''https:'' @ ?u) = Inr () \<and>
      fst (navigate FoodNetwork markupWorld) = Inr ()"
    by code_simp
  have h3: "dataSrc blankWorld = Inr None \<and> \<not> truthy None \<and>
      pageContent blankWorld = Inr ''<html><body></body></html>'' \<and>
      matchDataSrc ''<html><body></body></html>'' = None"
    by code_simp
  from h1 fallback_direct_navigation [OF w1, of ?u HGTV, THEN conjunct1]
  have "locateForm HGTV attributeWorld =
     (Inr MainFrame, [WaitForIframe, ReadDataSrc, Goto ''https://xd.wayin.com/display/container/dc/1''])"
    by simp
  moreover
  from h2 fallback_direct_navigation [OF w2, of ?u FoodNetwork None ?html, THEN conjunct2, THEN conjunct1]
  have l2: "locateForm FoodNetwork markupWorld =
     (Inr MainFrame, [WaitForIframe, ReadDataSrc, ReadContent,
                      Goto ''https://xd.wayin.com/display/container/dc/1''])"
    by simp
  moreover
  from h2 l2 fallback_direct_navigation [OF w2, of ?u FoodNetwork None ?html etDateNov2026 False Absent MainFrame,
      THEN conjunct2, THEN conjunct2, THEN conjunct2, THEN conjunct2]
  have "FillField MainFrame ''xReturningUserEmail'' \<in> set (snd (beforeSubmit FoodNetwork False markupWorld))"
    by simp
  moreover
  from h3 fallback_direct_navigation [OF w3, of ?u HGTV None "''<html><body></body></html>''" etDateNov2026 False Absent,
      THEN conjunct2, THEN conjunct2, THEN conjunct1]
  have "(\<exists>msg. fst (locateForm HGTV blankWorld) = Inl (Thrown msg)) \<and>
   outcomeOf (submitEntry HGTV etDateNov2026 False blankWorld Absent) \<noteq> Returned True"
    by simp
  ultimately show ?thesis by simp
qed

section \<open>Two runs on one day\<close>

lemma successful_run_file:
  assumes "outcomeOf (submitEntry p g False w f) = Returned True"
  shows "checkRateLimit g (nowCheck w) f (siteOf p) \<and>
         fileOf (submitEntry p g False w f) =
           snd (saveSubmissionRecord (nowSave w) (writeFileSync w) f (siteOf p) True None)"
proof -
  define browser where "browser = (case launch w of Inl e \<Rightarrow> False | Inr u \<Rightarrow> True)"
  define body where "body = fst (tryBlock p False w)"
  define succ where "succ = (case body of Inl a \<Rightarrow> False | Inr s \<Rightarrow> s)"
  have allowed: "checkRateLimit g (nowCheck w) f (siteOf p)"
    using assms by (auto simp: submitEntry_def split: if_splits)
  then have run: "submitEntry p g False w f =
      ((case fst (finallyClause p False w f browser succ) of
          Inl e \<Rightarrow> Rejected e
        | Inr u \<Rightarrow>
            (case fst (catchClause browser w body) of
               Inl (Thrown e) \<Rightarrow> Rejected e
             | Inl ReturnFalse \<Rightarrow> Returned False
             | Inr u \<Rightarrow> Returned succ)),
       fst (snd (finallyClause p False w f browser succ)),
       [RateCheck] @ snd (tryBlock p False w) @ snd (catchClause browser w body) @
         snd (snd (finallyClause p False w f browser succ)))"
    unfolding browser_def body_def succ_def
    by (simp add: submitEntry_def Let_def case_prod_beta)
  from assms have fin: "(if browser then close w else Inr ()) = Inr ()"
    by (cases "if browser then close w else Inr ()") (simp_all add: run finallyClause_fst)
  from assms fin have "succ"
    by (auto simp: run finallyClause_fst split: sum.splits abort.splits)
  with fin have "fst (snd (finallyClause p False w f browser succ)) =
      snd (saveSubmissionRecord (nowSave w) (writeFileSync w) f (siteOf p) True None)"
    by (simp add: finallyClause_def Let_def case_prod_beta)
  with allowed show ?thesis by (simp add: run)
qed

lemma save_written:
  assumes "f = Absent \<and> xs = [] \<or> f = Document xs"
  shows "snd (saveSubmissionRecord now (Inr ()) f st succ err) =
     Document (if length (xs @ [\<lparr>site = st, success = succ, error = err, timestamp = now\<rparr>]) > 100
               then slice_last 100 (xs @ [\<lparr>site = st, success = succ, error = err, timestamp = now\<rparr>])
               else xs @ [\<lparr>site = st, success = succ, error = err, timestamp = now\<rparr>])"
proof -
  from assms have rd: "(if existsSync f then readSubmissions f else Inr []) = Inr xs"
    by (auto simp: existsSync_def readSubmissions_def)
  show ?thesis
    by (simp add: saveSubmissionRecord_def saveBody_def rd)
qed

lemma slice_last_set: "set (slice_last n xs) \<subseteq> set xs"
  by (simp add: slice_last_def set_drop_subset)

lemma checkRateLimit_denies:
  assumes r: "r \<in> set ys" "site r = st" "success r" "g (timestamp r) = g now"
    and later: "\<forall>s\<in>set ys. site s = st \<and> success s \<and> timestamp r < timestamp s
                  \<longrightarrow> g (timestamp s) = g now"
  shows "\<not> checkRateLimit g now (Document ys) st"
proof -
  from r have "lastSubmission st ys \<noteq> None" by (auto simp: lastSubmission_None)
  then obtain l where l: "lastSubmission st ys = Some l" by auto
  note top = lastSubmission_Some [OF l]
  from top r have le: "timestamp r \<le> timestamp l" by blast
  have "g (timestamp l) = g now"
  proof (cases "timestamp r < timestamp l")
    case True
    with top later show ?thesis by blast
  next
    case False
    with le have "timestamp l = timestamp r" by simp
    with r(4) show ?thesis by simp
  qed
  with l show ?thesis
    by (simp add: checkRateLimit_def existsSync_def readSubmissions_def)
qed

lemma clickButton_clock [simp]:
  "clickButton (w\<lparr>nowCheck := a, nowSave := b\<rparr>) fr sel = clickButton w fr sel"
  by (simp add: clickButton_def split: sum.splits)

lemma classify_clock [simp]:
  "classify (w\<lparr>nowCheck := a, nowSave := b\<rparr>) confirmationText = classify w confirmationText"
  by (simp add: classify_def)

lemma submitStep_clock [simp]:
  "submitStep (w\<lparr>nowCheck := a, nowSave := b\<rparr>) fr = submitStep w fr"
  by (simp add: submitStep_def cong: sum.case_cong if_cong)

lemma tryBlock_clock:
  "tryBlock p d (w\<lparr>nowCheck := a, nowSave := b\<rparr>) = tryBlock p d w"
  by (simp add: tryBlock_def beforeSubmit_def navigate_def locateForm_def directNavigation_def
      fillSteps_def challenge_def waitForIframe_def handleCaptcha_def
      cong: sum.case_cong option.case_cong if_cong)

lemma failing_run_file:
  assumes "\<forall>s\<in>set xs. \<not> (site s = ''foodnetwork'' \<and> success s)"
  shows "fileOf (submitFoodNetworkEntry etDateNov2026 False (failingWorld i) (Document xs)) =
     Document (if length (xs @ [failureRecord i]) > 100
               then slice_last 100 (xs @ [failureRecord i])
               else xs @ [failureRecord i])"
proof -
  from assms have "lastSubmission ''foodnetwork'' xs = None"
    by (simp add: lastSubmission_None)
  then have allowed: "checkRateLimit etDateNov2026 (nowCheck (failingWorld i)) (Document xs) (siteOf FoodNetwork)"
    by (simp add: checkRateLimit_def existsSync_def readSubmissions_def siteOf_def)
  have "fst (tryBlock FoodNetwork False submitFailsWorld) = Inr False"
    by code_simp
  then have body: "fst (tryBlock FoodNetwork False (failingWorld i)) = Inr False"
    by (simp add: failingWorld_def tryBlock_clock)
  have l: "launch (failingWorld i) = Inr ()"
    by (simp add: failingWorld_def submitFailsWorld_def calmWorld_def)
  have c: "close (failingWorld i) = Inr ()"
    by (simp add: failingWorld_def submitFailsWorld_def calmWorld_def)
  have wr: "writeFileSync (failingWorld i) = Inr ()"
    by (simp add: failingWorld_def submitFailsWorld_def calmWorld_def)
  have ns: "nowSave (failingWorld i) = 1793714534000 + 15000 * int i"
    by (simp add: failingWorld_def)
  have "fileOf (submitFoodNetworkEntry etDateNov2026 False (failingWorld i) (Document xs)) =
      snd (saveSubmissionRecord (nowSave (failingWorld i)) (writeFileSync (failingWorld i))
             (Document xs) (siteOf FoodNetwork) False (Some ''See logs for details''))"
    using allowed
    by (simp add: submitFoodNetworkEntry_def submitEntry_def Let_def case_prod_beta body l c
        finallyClause_def del: saveSubmissionRecord_returns)
  also have "\<dots> = Document (if length (xs @ [failureRecord i]) > 100
               then slice_last 100 (xs @ [failureRecord i])
               else xs @ [failureRecord i])"
    using save_written [of "Document xs" xs "nowSave (failingWorld i)" "''foodnetwork''" False
        "Some ''See logs for details''"]
    by (simp add: wr ns siteOf_def failureRecord_def)
  finally show ?thesis .
qed

lemma afterOtherRuns_grows:
  "n \<le> 99 \<Longrightarrow>
   afterOtherRuns n (Document [firstSuccess]) = Document (firstSuccess # map failureRecord [0..<n])"
proof (induction n)
  case 0
  then show ?case by simp
next
  case (Suc n)
  then have ih: "afterOtherRuns n (Document [firstSuccess]) =
      Document (firstSuccess # map failureRecord [0..<n])" by simp
  have ok: "\<forall>s\<in>set (firstSuccess # map failureRecord [0..<n]).
      \<not> (site s = ''foodnetwork'' \<and> success s)"
    by (auto simp: firstSuccess_def failureRecord_def)
  from Suc.prems show ?case
    by (simp add: ih failing_run_file [OF ok])
qed

lemma afterOtherRuns_evicts:
  "afterOtherRuns 100 (Document [firstSuccess]) = Document (map failureRecord [0..<100])"
proof -
  have h: "afterOtherRuns 99 (Document [firstSuccess]) =
      Document (firstSuccess # map failureRecord [0..<99])"
    by (rule afterOtherRuns_grows) simp
  have ok: "\<forall>s\<in>set (firstSuccess # map failureRecord [0..<99]).
      \<not> (site s = ''foodnetwork'' \<and> success s)"
    by (auto simp: firstSuccess_def failureRecord_def)
  have "afterOtherRuns (Suc 99) (Document [firstSuccess]) =
      fileOf (submitFoodNetworkEntry etDateNov2026 False (failingWorld 99)
                (afterOtherRuns 99 (Document [firstSuccess])))"
    by (rule afterOtherRuns.simps)
  also have "\<dots> = Document (map failureRecord [0..<99] @ [failureRecord 99])"
    by (simp add: h failing_run_file [OF ok] slice_last_def)
  also have "map failureRecord [0..<99] @ [failureRecord 99] = map failureRecord [0..<100]"
  proof -
    have "[0..<100] = [0..<99] @ [99::nat]"
      using upt_Suc_append [of 0 99] by simp
    then show ?thesis by simp
  qed
  also have "Suc 99 = 100" by simp
  finally show ?thesis .
qed

text \<open>
  C1, as the code has it. Let a run that is not a dry run return true, with the
  submissions file missing or readable before it and the write of its record succeeding:
  the ledger then ends with the new success record. Take a later run of the same pipeline
  that is not a dry run and reads, at its rate check, a clock on the same New York
  calendar day as the record. On every readable ledger that still holds the record, and in which
  every successful record of the site stamped later than it lies on that day too, the run
  is denied: it returns false after the rate check alone, with no call on the browser, and
  leaves the ledger as it is. The ledger that the first run left is such a ledger when the
  ledger before it had no successful record of the site stamped later on another day.
\<close>

theorem second_run_same_day_denied:
  assumes run1: "outcomeOf (submitEntry p getETDate False w1 f0) = Returned True"
    and readable: "f0 = Absent \<and> xs = [] \<or> f0 = Document xs"
    and written: "writeFileSync w1 = Inr ()"
    and sameday: "getETDate (nowCheck w2) = getETDate (nowSave w1)"
  shows "\<exists>kept. fileOf (submitEntry p getETDate False w1 f0) = Document kept \<and>
           last kept = \<lparr>site = siteOf p, success = True, error = None, timestamp = nowSave w1\<rparr> \<and>
           (\<forall>ys. \<lparr>site = siteOf p, success = True, error = None, timestamp = nowSave w1\<rparr> \<in> set ys \<and>
                 (\<forall>s\<in>set ys. site s = siteOf p \<and> success s \<and> nowSave w1 < timestamp s
                     \<longrightarrow> getETDate (timestamp s) = getETDate (nowCheck w2)) \<longrightarrow>
              \<not> checkRateLimit getETDate (nowCheck w2) (Document ys) (siteOf p) \<and>
              submitEntry p getETDate False w2 (Document ys) =
                (Returned False, Document ys, [RateCheck])) \<and>
           ((\<forall>s\<in>set xs. site s = siteOf p \<and> success s \<and> nowSave w1 < timestamp s
                     \<longrightarrow> getETDate (timestamp s) = getETDate (nowCheck w2)) \<longrightarrow>
              submitEntry p getETDate False w2 (Document kept) =
                (Returned False, Document kept, [RateCheck]))"
proof -
  define r where "r = \<lparr>site = siteOf p, success = True, error = None, timestamp = nowSave w1\<rparr>"
  define kept where "kept = (if length (xs @ [r]) > 100 then slice_last 100 (xs @ [r]) else xs @ [r])"
  from successful_run_file [OF run1] written save_written [OF readable]
  have saved: "fileOf (submitEntry p getETDate False w1 f0) = Document kept"
    by (simp add: kept_def r_def)
  have lst: "last kept = r"
    by (simp add: kept_def slice_last_snoc)
  have ne: "kept \<noteq> []"
    by (simp add: kept_def slice_last_def)
  with lst have mem: "r \<in> set kept"
    using last_in_set by metis
  have sub: "set kept \<subseteq> insert r (set xs)"
    using slice_last_set [of 100 "xs @ [r]"] by (auto simp: kept_def)
  have denied: "\<not> checkRateLimit getETDate (nowCheck w2) (Document ys) (siteOf p) \<and>
      submitEntry p getETDate False w2 (Document ys) = (Returned False, Document ys, [RateCheck])"
    if "r \<in> set ys"
      and "\<forall>s\<in>set ys. site s = siteOf p \<and> success s \<and> nowSave w1 < timestamp s
             \<longrightarrow> getETDate (timestamp s) = getETDate (nowCheck w2)"
    for ys
  proof -
    from that(2) have "\<forall>s\<in>set ys. site s = siteOf p \<and> success s \<and> timestamp r < timestamp s
             \<longrightarrow> getETDate (timestamp s) = getETDate (nowCheck w2)"
      by (simp add: r_def)
    with that(1) sameday
    have "\<not> checkRateLimit getETDate (nowCheck w2) (Document ys) (siteOf p)"
      by (intro checkRateLimit_denies [of r]) (simp_all add: r_def)
    then show ?thesis by (simp add: submitEntry_def)
  qed
  have immediate: "submitEntry p getETDate False w2 (Document kept) =
      (Returned False, Document kept, [RateCheck])"
    if h: "\<forall>s\<in>set xs. site s = siteOf p \<and> success s \<and> nowSave w1 < timestamp s
             \<longrightarrow> getETDate (timestamp s) = getETDate (nowCheck w2)"
  proof -
    have "\<forall>s\<in>set kept. site s = siteOf p \<and> success s \<and> nowSave w1 < timestamp s
             \<longrightarrow> getETDate (timestamp s) = getETDate (nowCheck w2)"
    proof (intro ballI impI)
      fix s assume "s \<in> set kept"
        and s: "site s = siteOf p \<and> success s \<and> nowSave w1 < timestamp s"
      with sub have "s = r \<or> s \<in> set xs" by auto
      with h s show "getETDate (timestamp s) = getETDate (nowCheck w2)"
        by (auto simp: r_def)
    qed
    with denied [OF mem] show ?thesis by simp
  qed
  from saved lst denied immediate show ?thesis
    unfolding r_def by (intro exI [of _ kept] conjI allI impI) simp_all
qed

theorem second_run_same_day_denied_witness:
  "outcomeOf (submitEntry HGTV etDateNov2026 False calmWorld (Document sampleLedger)) = Returned True \<and>
   writeFileSync calmWorld = Inr () \<and>
   etDateNov2026 (nowCheck laterWorld) = etDateNov2026 (nowSave calmWorld) \<and>
   fileOf (submitEntry HGTV etDateNov2026 False calmWorld (Document sampleLedger)) =
     Document (sampleLedger @ [firstSuccess]) \<and>
   submitEntry HGTV etDateNov2026 False laterWorld (Document (sampleLedger @ [firstSuccess])) =
     (Returned False, Document (sampleLedger @ [firstSuccess]), [RateCheck]) \<and>
   submitEntry HGTV etDateNov2026 False laterWorld
       (Document (sampleLedger @ [firstSuccess, failureRecord 0])) =
     (Returned False, Document (sampleLedger @ [firstSuccess, failureRecord 0]), [RateCheck])"
proof -
  have a: "outcomeOf (submitEntry HGTV etDateNov2026 False calmWorld (Document sampleLedger)) = Returned True"
    by code_simp
  have b: "Document sampleLedger = Absent \<and> sampleLedger = [] \<or> Document sampleLedger = Document sampleLedger"
    by simp
  have c: "writeFileSync calmWorld = Inr ()"
    by code_simp
  have e: "etDateNov2026 (nowCheck laterWorld) = etDateNov2026 (nowSave calmWorld)"
    by code_simp
  have f: "fileOf (submitEntry HGTV etDateNov2026 False calmWorld (Document sampleLedger)) =
     Document (sampleLedger @ [firstSuccess])"
    by code_simp
  have r: "\<lparr>site = siteOf HGTV, success = True, error = None, timestamp = nowSave calmWorld\<rparr>
      = firstSuccess"
    by (simp add: firstSuccess_def siteOf_def calmWorld_def)
  from second_run_same_day_denied [OF a b c e] obtain kept where
    k: "fileOf (submitEntry HGTV etDateNov2026 False calmWorld (Document sampleLedger)) = Document kept"
    and d: "\<And>ys. firstSuccess \<in> set ys \<Longrightarrow>
        \<forall>s\<in>set ys. site s = siteOf HGTV \<and> success s \<and> nowSave calmWorld < timestamp s
               \<longrightarrow> etDateNov2026 (timestamp s) = etDateNov2026 (nowCheck laterWorld) \<Longrightarrow>
        submitEntry HGTV etDateNov2026 False laterWorld (Document ys) =
          (Returned False, Document ys, [RateCheck])"
    unfolding r by blast
  have d1: "submitEntry HGTV etDateNov2026 False laterWorld (Document (sampleLedger @ [firstSuccess])) =
     (Returned False, Document (sampleLedger @ [firstSuccess]), [RateCheck])"
    by (rule d) (simp_all add: sampleLedger_def firstSuccess_def siteOf_def calmWorld_def)
  have d2: "submitEntry HGTV etDateNov2026 False laterWorld
       (Document (sampleLedger @ [firstSuccess, failureRecord 0])) =
     (Returned False, Document (sampleLedger @ [firstSuccess, failureRecord 0]), [RateCheck])"
    by (rule d)
       (simp_all add: sampleLedger_def firstSuccess_def failureRecord_def siteOf_def calmWorld_def)
  from a c e f d1 d2 show ?thesis by simp
qed

lemma future_record_runs:
  "outcomeOf (submitHGTVEntry etDateNov2026 False calmWorld (Document futureLedger)) = Returned True \<and>
   fileOf (submitHGTVEntry etDateNov2026 False calmWorld (Document futureLedger)) =
     Document (futureLedger @ [firstSuccess]) \<and>
   etDateNov2026 (nowCheck laterWorld) = etDateNov2026 (timestamp firstSuccess) \<and>
   checkRateLimit etDateNov2026 (nowCheck laterWorld)
     (Document (futureLedger @ [firstSuccess])) ''hgtv'' \<and>
   submitHGTVEntry etDateNov2026 False laterWorld (Document (futureLedger @ [firstSuccess])) \<noteq>
     (Returned False, Document (futureLedger @ [firstSuccess]), [RateCheck]) \<and>
   fileOf (submitHGTVEntry etDateNov2026 False laterWorld (Document (futureLedger @ [firstSuccess]))) =
     Document (futureLedger @
       [firstSuccess,
        \<lparr>site = ''hgtv'', success = True, error = None, timestamp = 1793716260000\<rparr>]) \<and>
   etDateNov2026 1793716260000 = etDateNov2026 (timestamp firstSuccess)"
  by code_simp

lemma evicted_record_runs:
  "outcomeOf (submitHGTVEntry etDateNov2026 False calmWorld Absent) = Returned True \<and>
   fileOf (submitHGTVEntry etDateNov2026 False calmWorld Absent) = Document [firstSuccess] \<and>
   afterOtherRuns 100 (Document [firstSuccess]) = Document (map failureRecord [0..<100]) \<and>
   checkRateLimit etDateNov2026 (nowCheck laterWorld)
     (afterOtherRuns 100 (Document [firstSuccess])) ''hgtv'' \<and>
   outcomeOf (submitHGTVEntry etDateNov2026 False laterWorld
     (afterOtherRuns 100 (Document [firstSuccess]))) = Returned True"
proof -
  have a: "outcomeOf (submitHGTVEntry etDateNov2026 False calmWorld Absent) = Returned True \<and>
   fileOf (submitHGTVEntry etDateNov2026 False calmWorld Absent) = Document [firstSuccess]"
    by code_simp
  have none: "\<forall>s\<in>set (map failureRecord [0..<100]). \<not> (site s = ''hgtv'' \<and> success s)"
    by (auto simp: failureRecord_def)
  then have "\<not> (\<exists>s\<in>set (map failureRecord [0..<100]). site s = ''hgtv'' \<and> success s)"
    by blast
  then have "lastSubmission ''hgtv'' (map failureRecord [0..<100]) = None"
    by (rule iffD2 [OF lastSubmission_None])
  then have c: "checkRateLimit etDateNov2026 (nowCheck laterWorld)
      (Document (map failureRecord [0..<100])) ''hgtv''"
    by (simp add: checkRateLimit_def existsSync_def readSubmissions_def)
  then have al: "False \<or> checkRateLimit etDateNov2026 (nowCheck laterWorld)
      (Document (map failureRecord [0..<100])) (siteOf HGTV)"
    by (simp add: siteOf_def)
  have "outcomeOf (submitEntry HGTV etDateNov2026 False laterWorld Absent) = Returned True"
    by code_simp
  moreover have "False \<or> checkRateLimit etDateNov2026 (nowCheck laterWorld) Absent (siteOf HGTV)"
    by (simp add: checkRateLimit_def existsSync_def)
  ultimately have o: "outcomeOf (submitHGTVEntry etDateNov2026 False laterWorld
      (Document (map failureRecord [0..<100]))) = Returned True"
    by (simp add: submitHGTVEntry_def outcome_allowed [OF al] outcome_allowed)
  from a c o show ?thesis
    by (simp add: afterOtherRuns_evicts)
qed

lemma unreadable_ledger_runs:
  "checkRateLimit etDateNov2026 (nowCheck laterWorld)
     (Unparsable ''Unexpected end of JSON input'') ''hgtv'' \<and>
   outcomeOf (submitHGTVEntry etDateNov2026 False laterWorld
     (Unparsable ''Unexpected end of JSON input'')) = Returned True"
  by code_simp

text \<open>
  C1 as stated fails in three ways. When the ledger holds a successful record of the site
  stamped in the future, the rate check compares only that most recent success, here the
  one of 5 November, with today, 3 November: a first run succeeds and is recorded, the
  rate check of a second run half an hour later allows it too, and the ledger ends with
  two successes of the site on 3 November. And the ledger keeps the last hundred records
  only: after a recorded success at 14:01, a hundred failing runs of the other pipeline
  push the record out, and the rate check of a run at 14:30 allows it, so that it returns
  true. And when the submissions file can no longer be parsed, the rate check fails open:
  the run at 14:30 is allowed and returns true.
\<close>

theorem second_run_future_record_counterexample:
  "(outcomeOf (submitHGTVEntry etDateNov2026 False calmWorld (Document futureLedger)) = Returned True \<and>
    fileOf (submitHGTVEntry etDateNov2026 False calmWorld (Document futureLedger)) =
      Document (futureLedger @ [firstSuccess]) \<and>
    etDateNov2026 (nowCheck laterWorld) = etDateNov2026 (timestamp firstSuccess) \<and>
    checkRateLimit etDateNov2026 (nowCheck laterWorld)
      (Document (futureLedger @ [firstSuccess])) ''hgtv'' \<and>
    submitHGTVEntry etDateNov2026 False laterWorld (Document (futureLedger @ [firstSuccess])) \<noteq>
      (Returned False, Document (futureLedger @ [firstSuccess]), [RateCheck]) \<and>
    fileOf (submitHGTVEntry etDateNov2026 False laterWorld (Document (futureLedger @ [firstSuccess]))) =
      Document (futureLedger @
        [firstSuccess,
         \<lparr>site = ''hgtv'', success = True, error = None, timestamp = 1793716260000\<rparr>]) \<and>
    etDateNov2026 1793716260000 = etDateNov2026 (timestamp firstSuccess)) \<and>
   (outcomeOf (submitHGTVEntry etDateNov2026 False calmWorld Absent) = Returned True \<and>
    fileOf (submitHGTVEntry etDateNov2026 False calmWorld Absent) = Document [firstSuccess] \<and>
    afterOtherRuns 100 (Document [firstSuccess]) = Document (map failureRecord [0..<100]) \<and>
    checkRateLimit etDateNov2026 (nowCheck laterWorld)
      (afterOtherRuns 100 (Document [firstSuccess])) ''hgtv'' \<and>
    outcomeOf (submitHGTVEntry etDateNov2026 False laterWorld
      (afterOtherRuns 100 (Document [firstSuccess]))) = Returned True) \<and>
   (checkRateLimit etDateNov2026 (nowCheck laterWorld)
      (Unparsable ''Unexpected end of JSON input'') ''hgtv'' \<and>
    outcomeOf (submitHGTVEntry etDateNov2026 False laterWorld
      (Unparsable ''Unexpected end of JSON input'')) = Returned True)"
  by (rule conjI [OF future_record_runs conjI [OF evicted_record_runs unreadable_ledger_runs]])

end
